theory Spec2Isabelle
  imports Main
begin

section \<open>RDF terms and the namespace helpers\<close>

text \<open>
  A goraptor term is a named resource, an anonymous node or a literal. The comparisons
  of the parser (\<open>Equals\<close>) only ever put a term against one of the type constants below,
  which are all named or anonymous, so a literal is kept by its value alone.
\<close>

datatype rdfterm = Uri string | Blank string | Literal string

text \<open>
  Modelled from the spec: \<open>termStr\<close>, the node key of a term (the URI string, the
  blank-node label or the literal value). The helper is defined outside parser.go.
\<close>

fun termStr :: "rdfterm \<Rightarrow> string" where
  "termStr (Uri s) = s"
| "termStr (Blank s) = s"
| "termStr (Literal s) = s"

text \<open>
  Modelled from the spec: the constructors \<open>uri\<close> and \<open>blank\<close>, the two namespace
  constants and the prefix table with its two translations \<open>prefix\<close> (short to long,
  names without a colon belong to the SPDX terms namespace) and \<open>shortPrefix\<close> (long to
  short). They are defined outside parser.go; the namespaces are the standard ones.
\<close>

definition uri :: "string \<Rightarrow> rdfterm" where
  "uri s = Uri s"

definition blank :: "string \<Rightarrow> rdfterm" where
  "blank s = Blank s"

definition baseUri :: string where
  "baseUri = ''http://spdx.org/rdf/terms#''"

definition licenceUri :: string where
  "licenceUri = ''http://spdx.org/licenses/''"

definition rdfPrefixes :: "(string \<times> string) list" where
  "rdfPrefixes =
     [(''ns:'', ''http://www.w3.org/1999/02/22-rdf-syntax-ns#''),
      (''doap:'', ''http://usefulinc.com/ns/doap#''),
      (''rdfs:'', ''http://www.w3.org/2000/01/rdf-schema#''),
      ('''', baseUri)]"

definition HasPrefix :: "string \<Rightarrow> string \<Rightarrow> bool" where
  "HasPrefix s pre = (take (length pre) s = pre)"

definition TrimPrefix :: "string \<Rightarrow> string \<Rightarrow> string" where
  "TrimPrefix s pre = (if HasPrefix s pre then drop (length pre) s else s)"

text \<open>\<open>strings.Replace(s, old, new, 1)\<close>: the first occurrence only.\<close>

fun ReplaceFirst :: "string \<Rightarrow> string \<Rightarrow> string \<Rightarrow> string" where
  "ReplaceFirst [] old new = (if old = [] then new else [])"
| "ReplaceFirst (c # cs) old new =
     (if HasPrefix (c # cs) old then new @ drop (length old) (c # cs)
      else c # ReplaceFirst cs old new)"

text \<open>Case conversion of the ASCII letters; other bytes are left as they are.\<close>

definition lowerChar :: "char \<Rightarrow> char" where
  "lowerChar c =
     (case map_of (zip ''ABCDEFGHIJKLMNOPQRSTUVWXYZ'' ''abcdefghijklmnopqrstuvwxyz'') c of
        Some l \<Rightarrow> l
      | None \<Rightarrow> c)"

definition upperChar :: "char \<Rightarrow> char" where
  "upperChar c =
     (case map_of (zip ''abcdefghijklmnopqrstuvwxyz'' ''ABCDEFGHIJKLMNOPQRSTUVWXYZ'') c of
        Some u \<Rightarrow> u
      | None \<Rightarrow> c)"

definition ToLower :: "string \<Rightarrow> string" where
  "ToLower s = map lowerChar s"

definition ToUpper :: "string \<Rightarrow> string" where
  "ToUpper s = map upperChar s"

definition prefix :: "string \<Rightarrow> rdfterm" where
  "prefix k =
     (let pref = (if CHR '':'' \<in> set k then takeWhile (\<lambda>c. c \<noteq> CHR '':'') k @ '':'' else '''');
          rest = (if CHR '':'' \<in> set k then tl (dropWhile (\<lambda>c. c \<noteq> CHR '':'') k) else k)
      in Uri ((case map_of rdfPrefixes pref of Some long \<Rightarrow> long | None \<Rightarrow> pref) @ rest))"

fun shortPrefixIn :: "(string \<times> string) list \<Rightarrow> string \<Rightarrow> string" where
  "shortPrefixIn [] str = str"
| "shortPrefixIn ((short, long) # ps) str =
     (if HasPrefix str long then short @ drop (length long) str else shortPrefixIn ps str)"

definition shortPrefix :: "rdfterm \<Rightarrow> string" where
  "shortPrefix tm = shortPrefixIn rdfPrefixes (termStr tm)"

subsection \<open>RDF element types (RDF classes)\<close>

definition uri_nstype :: rdfterm where
  "uri_nstype = uri ''http://www.w3.org/1999/02/22-rdf-syntax-ns#type''"

definition typeDocument :: rdfterm where "typeDocument = prefix ''SpdxDocument''"
definition typeCreationInfo :: rdfterm where "typeCreationInfo = prefix ''CreationInfo''"
definition typePackage :: rdfterm where "typePackage = prefix ''Package''"
definition typeFile :: rdfterm where "typeFile = prefix ''File''"
definition typeVerificationCode :: rdfterm where
  "typeVerificationCode = prefix ''PackageVerificationCode''"
definition typeChecksum :: rdfterm where "typeChecksum = prefix ''Checksum''"
definition typeArtifactOf :: rdfterm where "typeArtifactOf = prefix ''doap:Project''"
definition typeReview :: rdfterm where "typeReview = prefix ''Review''"
definition typeExtractedLicence :: rdfterm where
  "typeExtractedLicence = prefix ''ExtractedLicensingInfo''"
definition typeAnyLicence :: rdfterm where "typeAnyLicence = prefix ''AnyLicenseInfo''"
definition typeConjunctiveSet :: rdfterm where
  "typeConjunctiveSet = prefix ''ConjunctiveLicenseSet''"
definition typeDisjunctiveSet :: rdfterm where
  "typeDisjunctiveSet = prefix ''DisjunctiveLicenseSet''"
definition typeLicence :: rdfterm where "typeLicence = prefix ''License''"
definition typeAbstractLicenceSet :: rdfterm where
  "typeAbstractLicenceSet = blank ''abstractLicenceSet''"

section \<open>The document values\<close>

text \<open>
  The source location of a triple (\<open>spdx.Meta\<close>, made by \<open>NewMetaL\<close> from the
  locator's line). A \<open>*spdx.Meta\<close> may be nil.
\<close>

type_synonym meta = nat

record valueStr =
  Val :: string
  Meta :: "meta option"

text \<open>
  Modelled from the spec: the value types of the spdx package, which parser.go imports
  and fills but which are declared outside it. They are plain data. An entity is kept
  as its Go type, its \<open>Meta\<close> and its fields, one store per field type: text values
  (\<open>ValueStr\<close>, and \<open>ValueCreator\<close> and \<open>ValueDate\<close> by the text given to
  \<open>SetValue\<close>), lists of text values, a pointer to another entity, a list of such
  pointers, a licence and a list of licences. A pointer to an entity is the key of the
  node that owns it: every entity is made for one node and registered under its key.
\<close>

datatype gotype =
    GDocument | GCreationInfo | GPackage | GFile | GVerificationCode | GChecksum
  | GArtifactOf | GReview | GExtractedLicence | GLicence
  | GLicenceSet | GConjunctiveLicenceSet | GDisjunctiveLicenceSet

datatype field =
    F_SpecVersion | F_DataLicence | F_Comment | F_CreationInfo | F_Packages | F_Files
  | F_Reviews | F_ExtractedLicences | F_Creator | F_Created | F_LicenceListVersion
  | F_Reviewer | F_Date | F_Name | F_Version | F_FileName | F_Supplier | F_Originator
  | F_DownloadLocation | F_VerificationCode | F_Checksum | F_HomePage | F_SourceInfo
  | F_LicenceConcluded | F_LicenceInfoFromFiles | F_LicenceDeclared | F_LicenceComments
  | F_CopyrightText | F_Summary | F_Description | F_Algo | F_Value | F_ExcludedFiles
  | F_Type | F_Notice | F_LicenceInfoInFile | F_Contributor | F_Dependency | F_ArtifactOf
  | F_ProjectUri | F_Id | F_Text | F_CrossReference | F_Licence

text \<open>
  A licence as a value of the interface \<open>spdx.AnyLicence\<close>: \<open>reqAnyLicence\<close> hands out
  a licence reference and a licence set by value (a copy of the struct, so of the
  members it has at that moment) and an extracted licence by pointer.
\<close>

datatype anyLicence =
    LicenceV valueStr
  | ExtractedLicenceP string
  | ConjunctiveLicenceSetV "anyLicence list" "meta option"
  | DisjunctiveLicenceSetV "anyLicence list" "meta option"

record entity =
  go_type :: gotype
  EMeta :: "meta option"
  Members :: "anyLicence list"
  strF :: "field \<Rightarrow> valueStr"
  listF :: "field \<Rightarrow> valueStr list"
  ptrF :: "field \<Rightarrow> string option"
  ptrsF :: "field \<Rightarrow> string list"
  licF :: "field \<Rightarrow> anyLicence option"
  licsF :: "field \<Rightarrow> anyLicence list"

text \<open>A struct literal \<open>&spdx.X{Meta: meta}\<close>: every other field has its zero value.\<close>

definition newEntity :: "gotype \<Rightarrow> meta option \<Rightarrow> entity" where
  "newEntity g m =
     \<lparr>go_type = g, EMeta = m, Members = [],
      strF = (\<lambda>_. \<lparr>Val = [], Meta = None\<rparr>), listF = (\<lambda>_. []),
      ptrF = (\<lambda>_. None), ptrsF = (\<lambda>_. []), licF = (\<lambda>_. None), licsF = (\<lambda>_. [])\<rparr>"

definition NewConjunctiveSet :: "meta option \<Rightarrow> anyLicence list \<Rightarrow> entity" where
  "NewConjunctiveSet m lics = (newEntity GConjunctiveLicenceSet m)\<lparr>Members := lics\<rparr>"

definition NewDisjunctiveSet :: "meta option \<Rightarrow> anyLicence list \<Rightarrow> entity" where
  "NewDisjunctiveSet m lics = (newEntity GDisjunctiveLicenceSet m)\<lparr>Members := lics\<rparr>"

definition NewLicence :: "string \<Rightarrow> meta option \<Rightarrow> entity" where
  "NewLicence s m =
     (let e = newEntity GLicence m in e\<lparr>strF := (strF e)(F_Licence := \<lparr>Val = s, Meta = m\<rparr>)\<rparr>)"

text \<open>\<open>set.Add(lic)\<close> of the three licence sets appends to the members.\<close>

definition Add :: "anyLicence \<Rightarrow> entity \<Rightarrow> entity" where
  "Add lic e = e\<lparr>Members := Members e @ [lic]\<rparr>"

section \<open>Errors\<close>

datatype msgarg = ArgTerm rdfterm | ArgStr string

datatype msg =
    MsgIncompatibleTypes msgarg rdfterm rdfterm
  | MsgPropertyNotSupported string rdfterm
  | MsgAlreadyDefined
  | MsgUnknownType rdfterm
  | MsgUnexpected rdfterm

text \<open>
  \<open>ParseError\<close> is \<open>spdx.NewParseError(msg, meta)\<close>, \<open>Errorf\<close> is a plain
  \<open>fmt.Errorf\<close> error, which has no location. \<open>Panic\<close> is a run-time panic (a nil
  dereference or a failed type assertion), which no caller recovers. \<open>OutOfFuel\<close> is
  not a result of the program: it marks a recursion cut off by the bound of the model.
\<close>

datatype error = ParseError msg "meta option" | Errorf msg | Panic | OutOfFuel

fun returned :: "error \<Rightarrow> bool" where
  "returned (ParseError _ _) = True"
| "returned (Errorf _) = True"
| "returned Panic = False"
| "returned OutOfFuel = False"

section \<open>Builders and the parser\<close>

text \<open>
  An updater is a closure of parser.go; it is kept as the rule it runs and the field it
  closes over, together with its own \<open>set\<close> flag where it has one.
\<close>

datatype req =
    ReqDocument | ReqCreationInfo | ReqPackage | ReqFile | ReqVerificationCode
  | ReqChecksum | ReqReview | ReqExtractedLicence | ReqArtifactOf

datatype updater =
    Upd field bool
  | UpdCutPrefix string field bool
  | UpdList field
  | UpdCreator field bool
  | UpdDate field bool
  | UpdListCreator field
  | AlgorithmUpd bool
  | RefAssign req field
  | RefAppend req field
  | LicAssign field
  | LicAppend field
  | MemberUpd
  | NsTypeUpd

record builder =
  b_t :: rdfterm
  b_ptr :: entity
  b_updaters :: "string \<rightharpoonup> updater"

record statement =
  Subject :: rdfterm
  Predicate :: rdfterm
  Object :: rdfterm

record bufferEntry =
  Statement :: statement
  BMeta :: "meta option"

text \<open>
  The index holds builder pointers, and a nil pointer can be stored in it: \<open>Some None\<close>
  is a key that is present with a nil builder. \<open>doc\<close> points to the document entity.
\<close>

record parser =
  index :: "string \<rightharpoonup> builder option"
  buffer :: "string \<rightharpoonup> bufferEntry list"
  doc :: "string option"

definition NewParser :: parser where
  "NewParser = \<lparr>index = Map.empty, buffer = Map.empty, doc = None\<rparr>"

definition has :: "builder \<Rightarrow> string \<Rightarrow> bool" where
  "has b pred = (b_updaters b pred \<noteq> None)"

subsection \<open>Type comparison\<close>

fun equalTypes :: "rdfterm \<Rightarrow> rdfterm list \<Rightarrow> bool" where
  "equalTypes found [] = False"
| "equalTypes found (b # need) = (if found = b then True else equalTypes found need)"

definition compatibleTypes :: "rdfterm \<Rightarrow> rdfterm \<Rightarrow> bool" where
  "compatibleTypes found need =
     (if equalTypes found [need] then True
      else if equalTypes need [typeAnyLicence]
        then equalTypes found
               [typeExtractedLicence, typeConjunctiveSet, typeDisjunctiveSet, typeLicence]
      else False)"

subsection \<open>The property tables\<close>

definition documentMap :: "entity \<Rightarrow> builder" where
  "documentMap d =
     \<lparr>b_t = typeDocument, b_ptr = d,
      b_updaters = map_of
        [(''specVersion'', Upd F_SpecVersion False),
         (''dataLicense'', UpdCutPrefix licenceUri F_DataLicence False),
         (''rdfs:comment'', Upd F_Comment False),
         (''creationInfo'', RefAssign ReqCreationInfo F_CreationInfo),
         (''describesPackage'', RefAppend ReqPackage F_Packages),
         (''referencesFile'', RefAppend ReqFile F_Files),
         (''reviewed'', RefAppend ReqReview F_Reviews),
         (''hasExtractedLicensingInfo'', RefAppend ReqExtractedLicence F_ExtractedLicences)]\<rparr>"

definition creationInfoMap :: "entity \<Rightarrow> builder" where
  "creationInfoMap cri =
     \<lparr>b_t = typeCreationInfo, b_ptr = cri,
      b_updaters = map_of
        [(''creator'', UpdListCreator F_Creator),
         (''rdfs:comment'', Upd F_Comment False),
         (''created'', UpdDate F_Created False),
         (''licenseListVersion'', Upd F_LicenceListVersion False)]\<rparr>"

definition reviewMap :: "entity \<Rightarrow> builder" where
  "reviewMap rv =
     \<lparr>b_t = typeReview, b_ptr = rv,
      b_updaters = map_of
        [(''reviewer'', UpdCreator F_Reviewer False),
         (''rdfs:comment'', Upd F_Comment False),
         (''reviewDate'', UpdDate F_Date False)]\<rparr>"

definition packageMap :: "entity \<Rightarrow> builder" where
  "packageMap pkg =
     \<lparr>b_t = typePackage, b_ptr = pkg,
      b_updaters = map_of
        [(''name'', Upd F_Name False),
         (''versionInfo'', Upd F_Version False),
         (''packageFileName'', Upd F_FileName False),
         (''supplier'', UpdCreator F_Supplier False),
         (''originator'', UpdCreator F_Originator False),
         (''downloadLocation'', Upd F_DownloadLocation False),
         (''packageVerificationCode'', RefAssign ReqVerificationCode F_VerificationCode),
         (''checksum'', RefAssign ReqChecksum F_Checksum),
         (''doap:homepage'', Upd F_HomePage False),
         (''sourceInfo'', Upd F_SourceInfo False),
         (''licenseConcluded'', LicAssign F_LicenceConcluded),
         (''licenseInfoFromFiles'', LicAppend F_LicenceInfoFromFiles),
         (''licenseDeclared'', LicAssign F_LicenceDeclared),
         (''licenseComments'', Upd F_LicenceComments False),
         (''copyrightText'', Upd F_CopyrightText False),
         (''summary'', Upd F_Summary False),
         (''description'', Upd F_Description False),
         (''hasFile'', RefAppend ReqFile F_Files)]\<rparr>"

definition checksumMap :: "entity \<Rightarrow> builder" where
  "checksumMap cksum =
     \<lparr>b_t = typeChecksum, b_ptr = cksum,
      b_updaters = map_of
        [(''algorithm'', AlgorithmUpd False),
         (''checksumValue'', Upd F_Value False)]\<rparr>"

definition verificationCodeMap :: "entity \<Rightarrow> builder" where
  "verificationCodeMap vc =
     \<lparr>b_t = typeVerificationCode, b_ptr = vc,
      b_updaters = map_of
        [(''packageVerificationCodeValue'', Upd F_Value False),
         (''packageVerificationCodeExcludedFile'', UpdList F_ExcludedFiles)]\<rparr>"

definition fileMap :: "entity \<Rightarrow> builder" where
  "fileMap file =
     \<lparr>b_t = typeFile, b_ptr = file,
      b_updaters = map_of
        [(''fileName'', Upd F_Name False),
         (''rdfs:comment'', Upd F_Comment False),
         (''fileType'', UpdCutPrefix ''http://spdx.org/rdf/terms#'' F_Type False),
         (''checksum'', RefAssign ReqChecksum F_Checksum),
         (''copyrightText'', Upd F_CopyrightText False),
         (''noticeText'', Upd F_Notice False),
         (''licenseConcluded'', LicAssign F_LicenceConcluded),
         (''licenseInfoInFile'', LicAppend F_LicenceInfoInFile),
         (''licenseComments'', Upd F_LicenceComments False),
         (''fileContributor'', UpdList F_Contributor),
         (''fileDependency'', RefAppend ReqFile F_Dependency),
         (''artifactOf'', RefAppend ReqArtifactOf F_ArtifactOf)]\<rparr>"

definition artifactOfMap :: "entity \<Rightarrow> builder" where
  "artifactOfMap artif =
     \<lparr>b_t = typeArtifactOf, b_ptr = artif,
      b_updaters = map_of
        [(''doap:name'', Upd F_Name False),
         (''doap:homepage'', Upd F_HomePage False)]\<rparr>"

definition extractedLicensingInfoMap :: "entity \<Rightarrow> builder" where
  "extractedLicensingInfoMap lic =
     \<lparr>b_t = typeExtractedLicence, b_ptr = lic,
      b_updaters = map_of
        [(''licenseId'', Upd F_Id False),
         (''name'', UpdList F_Name),
         (''extractedText'', Upd F_Text False),
         (''rdfs:comment'', Upd F_Comment False),
         (''rdfs:seeAlso'', UpdList F_CrossReference)]\<rparr>"

text \<open>
  The two closures of \<open>licenceSetMap\<close> share the variable \<open>set\<close>, which the promotion
  reassigns together with \<open>bldr.ptr\<close>: the two always hold the same pointer, so the set
  that \<open>member\<close> adds to is the builder's \<open>b_ptr\<close>.
\<close>

definition licenceSetMap :: "entity \<Rightarrow> builder" where
  "licenceSetMap lset =
     \<lparr>b_t = typeAbstractLicenceSet, b_ptr = lset,
      b_updaters = map_of [(''member'', MemberUpd), (''ns:type'', NsTypeUpd)]\<rparr>"

definition conjunctiveSetBuilder :: "meta option \<Rightarrow> builder" where
  "conjunctiveSetBuilder m =
     (licenceSetMap (NewConjunctiveSet m []))\<lparr>b_t := typeConjunctiveSet\<rparr>"

definition disjuntiveSetBuilder :: "meta option \<Rightarrow> builder" where
  "disjuntiveSetBuilder m =
     (licenceSetMap (NewDisjunctiveSet m []))\<lparr>b_t := typeDisjunctiveSet\<rparr>"

definition licenceReferenceTerm :: "rdfterm \<Rightarrow> meta option \<Rightarrow> entity" where
  "licenceReferenceTerm node m = NewLicence (TrimPrefix (termStr node) licenceUri) m"

definition licenceReferenceBuilder :: "rdfterm \<Rightarrow> meta option \<Rightarrow> builder" where
  "licenceReferenceBuilder node m =
     \<lparr>b_t = typeLicence, b_ptr = licenceReferenceTerm node m, b_updaters = Map.empty\<rparr>"

section \<open>The resolution engine\<close>

text \<open>
  \<open>setType\<close>, \<open>builder.apply\<close>, the updaters and \<open>reqType\<close> call one another: typing a
  node replays its buffer, a replayed statement may require the type of another node,
  which types that node and replays its buffer in turn. Each function is written as the
  source has it, with the call back into \<open>setType\<close> taken as the parameter \<open>st\<close>;
  \<open>setType\<close> then ties the knot by recursion on a bound of the nesting depth.
  \<open>setType\<close> and \<open>reqType\<close> return \<open>bldr.ptr\<close>, the pointer to the node's entity, which
  is the node's key.
\<close>

type_synonym setTypeFn =
  "parser \<Rightarrow> rdfterm \<Rightarrow> rdfterm \<Rightarrow> meta option \<Rightarrow> parser \<times> (error + string)"

definition reqType_w ::
  "setTypeFn \<Rightarrow> parser \<Rightarrow> rdfterm \<Rightarrow> rdfterm \<Rightarrow> parser \<times> (error + string)" where
  "reqType_w st p node ty =
     (case index p (termStr node) of
        Some None \<Rightarrow> (p, Inl Panic)
      | Some (Some bldr) \<Rightarrow>
          if \<not> compatibleTypes (b_t bldr) ty
          then (p, Inl (Errorf (MsgIncompatibleTypes (ArgTerm node) (b_t bldr) ty)))
          else (p, Inr (termStr node))
      | None \<Rightarrow> st p node ty None)"

text \<open>
  The \<open>req*\<close> functions: \<open>reqType\<close> for the type of the kind, then the type assertion
  \<open>obj.(*spdx.X)\<close>, which panics on an entity of another Go type.
\<close>

definition reqAs ::
  "setTypeFn \<Rightarrow> rdfterm \<Rightarrow> gotype \<Rightarrow> parser \<Rightarrow> rdfterm \<Rightarrow> parser \<times> (error + string)" where
  "reqAs st ty g p node =
     (case reqType_w st p node ty of
        (p', Inl e) \<Rightarrow> (p', Inl e)
      | (p', Inr k) \<Rightarrow>
          (case index p' k of
             Some (Some b) \<Rightarrow> if go_type (b_ptr b) = g then (p', Inr k) else (p', Inl Panic)
           | _ \<Rightarrow> (p', Inl Panic)))"

definition reqDocument_w where "reqDocument_w st = reqAs st typeDocument GDocument"
definition reqCreationInfo_w where "reqCreationInfo_w st = reqAs st typeCreationInfo GCreationInfo"
definition reqPackage_w where "reqPackage_w st = reqAs st typePackage GPackage"
definition reqFile_w where "reqFile_w st = reqAs st typeFile GFile"
definition reqVerificationCode_w where
  "reqVerificationCode_w st = reqAs st typeVerificationCode GVerificationCode"
definition reqChecksum_w where "reqChecksum_w st = reqAs st typeChecksum GChecksum"
definition reqReview_w where "reqReview_w st = reqAs st typeReview GReview"
definition reqExtractedLicence_w where
  "reqExtractedLicence_w st = reqAs st typeExtractedLicence GExtractedLicence"
definition reqArtifactOf_w where "reqArtifactOf_w st = reqAs st typeArtifactOf GArtifactOf"

fun req_w :: "setTypeFn \<Rightarrow> req \<Rightarrow> parser \<Rightarrow> rdfterm \<Rightarrow> parser \<times> (error + string)" where
  "req_w st ReqDocument = reqDocument_w st"
| "req_w st ReqCreationInfo = reqCreationInfo_w st"
| "req_w st ReqPackage = reqPackage_w st"
| "req_w st ReqFile = reqFile_w st"
| "req_w st ReqVerificationCode = reqVerificationCode_w st"
| "req_w st ReqChecksum = reqChecksum_w st"
| "req_w st ReqReview = reqReview_w st"
| "req_w st ReqExtractedLicence = reqExtractedLicence_w st"
| "req_w st ReqArtifactOf = reqArtifactOf_w st"

text \<open>
  \<open>reqAnyLicence\<close>: the type switch on the entity. No entity has the Go type
  \<open>*spdx.AnyLicence\<close> or \<open>*[]spdx.AnyLicence\<close>, so these two cases never match; an
  abstract \<open>*spdx.LicenceSet\<close> has no case and falls to the default.
\<close>

definition reqAnyLicence_w ::
  "setTypeFn \<Rightarrow> parser \<Rightarrow> rdfterm \<Rightarrow> parser \<times> (error + anyLicence)" where
  "reqAnyLicence_w st p node =
     (case reqType_w st p node typeAnyLicence of
        (p', Inl e) \<Rightarrow> (p', Inl e)
      | (p', Inr k) \<Rightarrow>
          (case index p' k of
             Some (Some b) \<Rightarrow>
               (case go_type (b_ptr b) of
                  GConjunctiveLicenceSet \<Rightarrow>
                    (p', Inr (ConjunctiveLicenceSetV (Members (b_ptr b)) (EMeta (b_ptr b))))
                | GDisjunctiveLicenceSet \<Rightarrow>
                    (p', Inr (DisjunctiveLicenceSetV (Members (b_ptr b)) (EMeta (b_ptr b))))
                | GLicence \<Rightarrow> (p', Inr (LicenceV (strF (b_ptr b) F_Licence)))
                | GExtractedLicence \<Rightarrow> (p', Inr (ExtractedLicenceP k))
                | _ \<Rightarrow> (p', Inl (Errorf (MsgUnexpected node))))
           | _ \<Rightarrow> (p', Inl Panic)))"

subsection \<open>Updaters\<close>

text \<open>
  A builder is a heap object reached through the index; the updaters of the builder of
  key \<open>K\<close> write to its entity and to their own flags there.
\<close>

definition modBuilder :: "string \<Rightarrow> (builder \<Rightarrow> builder) \<Rightarrow> parser \<Rightarrow> parser" where
  "modBuilder K f p =
     (case index p K of
        Some (Some b) \<Rightarrow> p\<lparr>index := (index p)(K \<mapsto> Some (f b))\<rparr>
      | _ \<Rightarrow> p)"

definition modEntity :: "string \<Rightarrow> (entity \<Rightarrow> entity) \<Rightarrow> parser \<Rightarrow> parser" where
  "modEntity K f p = modBuilder K (\<lambda>b. b\<lparr>b_ptr := f (b_ptr b)\<rparr>) p"

definition setFlag :: "string \<Rightarrow> string \<Rightarrow> updater \<Rightarrow> parser \<Rightarrow> parser" where
  "setFlag K prop u p = modBuilder K (\<lambda>b. b\<lparr>b_updaters := (b_updaters b)(prop \<mapsto> u)\<rparr>) p"

definition setStr :: "field \<Rightarrow> valueStr \<Rightarrow> entity \<Rightarrow> entity" where
  "setStr fld v e = e\<lparr>strF := (strF e)(fld := v)\<rparr>"

definition appendStr :: "field \<Rightarrow> valueStr \<Rightarrow> entity \<Rightarrow> entity" where
  "appendStr fld v e = e\<lparr>listF := (listF e)(fld := listF e fld @ [v])\<rparr>"

definition setPtr :: "field \<Rightarrow> string option \<Rightarrow> entity \<Rightarrow> entity" where
  "setPtr fld v e = e\<lparr>ptrF := (ptrF e)(fld := v)\<rparr>"

definition appendPtr :: "field \<Rightarrow> string \<Rightarrow> entity \<Rightarrow> entity" where
  "appendPtr fld v e = e\<lparr>ptrsF := (ptrsF e)(fld := ptrsF e fld @ [v])\<rparr>"

definition setLic :: "field \<Rightarrow> anyLicence option \<Rightarrow> entity \<Rightarrow> entity" where
  "setLic fld v e = e\<lparr>licF := (licF e)(fld := v)\<rparr>"

definition appendLic :: "field \<Rightarrow> anyLicence \<Rightarrow> entity \<Rightarrow> entity" where
  "appendLic fld v e = e\<lparr>licsF := (licsF e)(fld := licsF e fld @ [v])\<rparr>"

text \<open>The \<open>ns:type\<close> closure of \<open>licenceSetMap\<close>: the promotion of an abstract set.\<close>

definition nsType :: "parser \<Rightarrow> string \<Rightarrow> rdfterm \<Rightarrow> meta option \<Rightarrow> parser \<times> error option" where
  "nsType p K obj m =
     (case index p K of
        Some (Some bldr) \<Rightarrow>
          if \<not> equalTypes (b_t bldr) [typeAbstractLicenceSet]
          then (p, Some (ParseError MsgAlreadyDefined m))
          else if go_type (b_ptr bldr) \<noteq> GLicenceSet then (p, Some Panic)
          else
            (let tmpSet = b_ptr bldr;
                 goodMeta = (case EMeta tmpSet of None \<Rightarrow> m | Some x \<Rightarrow> Some x)
             in if equalTypes obj [typeConjunctiveSet]
                then (modBuilder K (\<lambda>b. b\<lparr>b_t := typeConjunctiveSet,
                        b_ptr := NewConjunctiveSet goodMeta (Members tmpSet)\<rparr>) p, None)
                else if equalTypes obj [typeDisjunctiveSet]
                then (modBuilder K (\<lambda>b. b\<lparr>b_t := typeDisjunctiveSet,
                        b_ptr := NewDisjunctiveSet goodMeta (Members tmpSet)\<rparr>) p, None)
                else (p, Some (ParseError
                        (MsgIncompatibleTypes (ArgStr ''Licence Set'') (b_t bldr) obj) m)))
      | _ \<Rightarrow> (p, Some Panic))"

text \<open>
  One updater of the builder of key \<open>K\<close>, registered under the property \<open>prop\<close>. The
  single references assign whatever the \<open>req*\<close> call returned, nil with a returned
  error, before they return the error; the list references return the error first.
\<close>

fun runUpdater ::
  "setTypeFn \<Rightarrow> parser \<Rightarrow> string \<Rightarrow> string \<Rightarrow> updater \<Rightarrow> rdfterm \<Rightarrow> meta option
    \<Rightarrow> parser \<times> error option" where
  "runUpdater st p K prop (Upd fld isset) obj m =
     (if isset then (p, Some (ParseError MsgAlreadyDefined m))
      else (setFlag K prop (Upd fld True)
              (modEntity K (setStr fld \<lparr>Val = termStr obj, Meta = m\<rparr>) p), None))"
| "runUpdater st p K prop (UpdCutPrefix pre fld isset) obj m =
     (if isset then (p, Some (ParseError MsgAlreadyDefined m))
      else (setFlag K prop (UpdCutPrefix pre fld True)
              (modEntity K (setStr fld \<lparr>Val = TrimPrefix (termStr obj) pre, Meta = m\<rparr>) p),
            None))"
| "runUpdater st p K prop (UpdList fld) obj m =
     (modEntity K (appendStr fld \<lparr>Val = termStr obj, Meta = m\<rparr>) p, None)"
| "runUpdater st p K prop (UpdCreator fld isset) obj m =
     (if isset then (p, Some (ParseError MsgAlreadyDefined m))
      else (setFlag K prop (UpdCreator fld True)
              (modEntity K (setStr fld \<lparr>Val = termStr obj, Meta = m\<rparr>) p), None))"
| "runUpdater st p K prop (UpdDate fld isset) obj m =
     (if isset then (p, Some (ParseError MsgAlreadyDefined m))
      else (setFlag K prop (UpdDate fld True)
              (modEntity K (setStr fld \<lparr>Val = termStr obj, Meta = m\<rparr>) p), None))"
| "runUpdater st p K prop (UpdListCreator fld) obj m =
     (modEntity K (appendStr fld \<lparr>Val = termStr obj, Meta = m\<rparr>) p, None)"
| "runUpdater st p K prop (AlgorithmUpd algoSet) obj m =
     (if algoSet then (p, Some (ParseError MsgAlreadyDefined m))
      else
        (let str = ToUpper (ReplaceFirst (termStr obj)
                     ''http://spdx.org/rdf/terms#checksumAlgorithm_'' [])
         in (setFlag K prop (AlgorithmUpd True)
               (modEntity K (setStr F_Algo \<lparr>Val = str, Meta = m\<rparr>) p), None)))"
| "runUpdater st p K prop (RefAssign r fld) obj m =
     (case req_w st r p obj of
        (p', Inl e) \<Rightarrow>
          if returned e then (modEntity K (setPtr fld None) p', Some e) else (p', Some e)
      | (p', Inr k) \<Rightarrow> (modEntity K (setPtr fld (Some k)) p', None))"
| "runUpdater st p K prop (RefAppend r fld) obj m =
     (case req_w st r p obj of
        (p', Inl e) \<Rightarrow> (p', Some e)
      | (p', Inr k) \<Rightarrow> (modEntity K (appendPtr fld k) p', None))"
| "runUpdater st p K prop (LicAssign fld) obj m =
     (case reqAnyLicence_w st p obj of
        (p', Inl e) \<Rightarrow>
          if returned e then (modEntity K (setLic fld None) p', Some e) else (p', Some e)
      | (p', Inr lic) \<Rightarrow> (modEntity K (setLic fld (Some lic)) p', None))"
| "runUpdater st p K prop (LicAppend fld) obj m =
     (case reqAnyLicence_w st p obj of
        (p', Inl e) \<Rightarrow> (p', Some e)
      | (p', Inr lic) \<Rightarrow> (modEntity K (appendLic fld lic) p', None))"
| "runUpdater st p K prop MemberUpd obj m =
     (case reqAnyLicence_w st p obj of
        (p', Inl e) \<Rightarrow> (p', Some e)
      | (p', Inr lic) \<Rightarrow> (modEntity K (Add lic) p', None))"
| "runUpdater st p K prop NsTypeUpd obj m = nsType p K obj m"

text \<open>\<open>(b *builder) apply\<close>, for the builder registered under \<open>K\<close> (nil panics).\<close>

definition apply_w ::
  "setTypeFn \<Rightarrow> parser \<Rightarrow> string \<Rightarrow> rdfterm \<Rightarrow> rdfterm \<Rightarrow> meta option
    \<Rightarrow> parser \<times> error option" where
  "apply_w st p K pred obj m =
     (case index p K of
        Some (Some b) \<Rightarrow>
          (let property = shortPrefix pred in
           case b_updaters b property of
             None \<Rightarrow> (p, Some (ParseError (MsgPropertyNotSupported property (b_t b)) m))
           | Some f \<Rightarrow> runUpdater st p K property f obj m)
      | _ \<Rightarrow> (p, Some Panic))"

text \<open>The loop "run buffer" of \<open>setType\<close>: it returns at the first error.\<close>

fun runBuffer ::
  "setTypeFn \<Rightarrow> parser \<Rightarrow> string \<Rightarrow> bufferEntry list \<Rightarrow> parser \<times> error option" where
  "runBuffer st p K [] = (p, None)"
| "runBuffer st p K (stm # buf) =
     (case apply_w st p K (Predicate (Statement stm)) (Object (Statement stm)) (BMeta stm) of
        (p', Some e) \<Rightarrow> (p', Some e)
      | (p', None) \<Rightarrow> runBuffer st p' K buf)"

text \<open>
  The switch "new builder by type" of \<open>setType\<close>. The generic licence type with a
  literal node matches no case of the inner type switch and leaves the builder nil.
\<close>

definition newBuilder ::
  "parser \<Rightarrow> rdfterm \<Rightarrow> rdfterm \<Rightarrow> meta option \<Rightarrow> error + (parser \<times> builder option)" where
  "newBuilder p node ty m =
     (if ty = typeDocument
        then Inr (p\<lparr>doc := Some (termStr node)\<rparr>, Some (documentMap (newEntity GDocument m)))
      else if ty = typeCreationInfo
        then Inr (p, Some (creationInfoMap (newEntity GCreationInfo m)))
      else if ty = typePackage then Inr (p, Some (packageMap (newEntity GPackage m)))
      else if ty = typeChecksum then Inr (p, Some (checksumMap (newEntity GChecksum m)))
      else if ty = typeVerificationCode
        then Inr (p, Some (verificationCodeMap (newEntity GVerificationCode m)))
      else if ty = typeFile then Inr (p, Some (fileMap (newEntity GFile m)))
      else if ty = typeReview then Inr (p, Some (reviewMap (newEntity GReview m)))
      else if ty = typeArtifactOf
        then Inr (p, Some (artifactOfMap
               (case node of
                  Uri u \<Rightarrow> setStr F_ProjectUri \<lparr>Val = termStr node, Meta = m\<rparr>
                             (newEntity GArtifactOf m)
                | _ \<Rightarrow> newEntity GArtifactOf m)))
      else if ty = typeExtractedLicence
        then Inr (p, Some (extractedLicensingInfoMap (newEntity GExtractedLicence m)))
      else if ty = typeAnyLicence
        then (case node of
                Uri u \<Rightarrow> Inr (p, Some (licenceReferenceBuilder node m))
              | Blank b \<Rightarrow>
                  if HasPrefix (ToLower (termStr node)) ''licenseref''
                  then Inr (p, Some (extractedLicensingInfoMap (newEntity GExtractedLicence m)))
                  else Inr (p, Some (licenceSetMap (newEntity GLicenceSet m)))
              | Literal l \<Rightarrow> Inr (p, None))
      else if ty = typeLicence then Inr (p, Some (licenceReferenceBuilder node m))
      else if ty = typeAbstractLicenceSet
        then Inr (p, Some (licenceSetMap (newEntity GLicenceSet m)))
      else if ty = typeConjunctiveSet then Inr (p, Some (conjunctiveSetBuilder m))
      else if ty = typeDisjunctiveSet then Inr (p, Some (disjuntiveSetBuilder m))
      else Inl (ParseError (MsgUnknownType ty) m))"

definition setType_w :: "setTypeFn \<Rightarrow> setTypeFn" where
  "setType_w st p node ty m =
     (let nodeStr = termStr node in
      case index p nodeStr of
        Some None \<Rightarrow> (p, Inl Panic)
      | Some (Some bldr) \<Rightarrow>
          if \<not> equalTypes (b_t bldr) [ty] \<and> has bldr ''ns:type''
          then (case apply_w st p nodeStr (uri ''ns:type'') ty m of
                  (p', Some e) \<Rightarrow> (p', Inl e)
                | (p', None) \<Rightarrow> (p', Inr nodeStr))
          else if \<not> compatibleTypes (b_t bldr) ty
          then (p, Inl (ParseError (MsgIncompatibleTypes (ArgTerm node) (b_t bldr) ty) m))
          else (p, Inr nodeStr)
      | None \<Rightarrow>
          (case newBuilder p node ty m of
             Inl e \<Rightarrow> (p, Inl e)
           | Inr (p1, bldr) \<Rightarrow>
               (let p2 = p1\<lparr>index := (index p1)(nodeStr \<mapsto> bldr)\<rparr>;
                    buf = (case buffer p2 nodeStr of None \<Rightarrow> [] | Some b \<Rightarrow> b)
                in case runBuffer st p2 nodeStr buf of
                     (p3, Some e) \<Rightarrow> (p3, Inl e)
                   | (p3, None) \<Rightarrow>
                       (let p4 = p3\<lparr>buffer := (buffer p3)(nodeStr := None)\<rparr>
                        in case bldr of
                             None \<Rightarrow> (p4, Inl Panic)
                           | Some b \<Rightarrow> (p4, Inr nodeStr)))))"

text \<open>
  \<open>setType\<close> with the nesting of its calls bounded by \<open>n\<close>; a call nested deeper is cut
  off with \<open>OutOfFuel\<close>.
\<close>

primrec setType :: "nat \<Rightarrow> setTypeFn" where
  "setType 0 = (\<lambda>p node ty m. (p, Inl OutOfFuel))"
| "setType (Suc n) = setType_w (setType n)"

definition reqType :: "nat \<Rightarrow> parser \<Rightarrow> rdfterm \<Rightarrow> rdfterm \<Rightarrow> parser \<times> (error + string)" where
  "reqType n = reqType_w (setType n)"

definition reqAnyLicence :: "nat \<Rightarrow> parser \<Rightarrow> rdfterm \<Rightarrow> parser \<times> (error + anyLicence)" where
  "reqAnyLicence n = reqAnyLicence_w (setType n)"

definition apply_b ::
  "nat \<Rightarrow> parser \<Rightarrow> string \<Rightarrow> rdfterm \<Rightarrow> rdfterm \<Rightarrow> meta option \<Rightarrow> parser \<times> error option" where
  "apply_b n = apply_w (setType n)"

text \<open>Process a SPDX Truple.\<close>

definition processTruple ::
  "nat \<Rightarrow> parser \<Rightarrow> statement \<Rightarrow> meta option \<Rightarrow> parser \<times> error option" where
  "processTruple n p stm m =
     (let node = termStr (Subject stm) in
      if Predicate stm = uri_nstype
      then (case setType n p (Subject stm) (Object stm) m of
              (p', Inl e) \<Rightarrow> (p', Some e)
            | (p', Inr v) \<Rightarrow> (p', None))
      else
        (case index p node of
           Some bldr \<Rightarrow> apply_b n p node (Predicate stm) (Object stm) m
         | None \<Rightarrow>
             (p\<lparr>buffer := (buffer p)(node \<mapsto>
                   (case buffer p node of None \<Rightarrow> [] | Some b \<Rightarrow> b)
                     @ [\<lparr>Statement = stm, BMeta = m\<rparr>])\<rparr>, None)))"

text \<open>
  \<open>Parser.Parse\<close>: the statements come with the line of their locator; the loop stops
  at the first error (the rest of the channel is only drained). The result is the
  pointer \<open>p.doc\<close>, given here with the entities it points into, and the error.
\<close>

fun parseLoop ::
  "nat \<Rightarrow> parser \<Rightarrow> (statement \<times> nat) list \<Rightarrow> parser \<times> error option" where
  "parseLoop n p [] = (p, None)"
| "parseLoop n p ((stm, line) # rest) =
     (case processTruple n p stm (Some line) of
        (p', Some e) \<Rightarrow> (p', Some e)
      | (p', None) \<Rightarrow> parseLoop n p' rest)"

definition heap :: "parser \<Rightarrow> string \<rightharpoonup> entity" where
  "heap p = (\<lambda>k. case index p k of Some (Some b) \<Rightarrow> Some (b_ptr b) | _ \<Rightarrow> None)"

text \<open>
  A call of \<open>setType\<close> nests no deeper than the number of nodes that wait in the buffer,
  and every statement buffers one node at most, so the length of the input bounds the
  depth.
\<close>

definition Parse ::
  "(statement \<times> nat) list \<Rightarrow> (string option \<times> (string \<rightharpoonup> entity)) \<times> error option" where
  "Parse input =
     (case parseLoop (Suc (length input)) NewParser input of
        (p, err) \<Rightarrow> ((doc p, heap p), err))"

section \<open>Vocabulary of the statements\<close>

text \<open>A statement by its three terms.\<close>

definition tr :: "rdfterm \<Rightarrow> rdfterm \<Rightarrow> rdfterm \<Rightarrow> statement" where "tr s p ob = \<lparr>Subject = s, Predicate = p, Object = ob\<rparr>"

text \<open>
  What a call may change: the buffer only loses the entries of the nodes the call
  resolves (\<open>bufShrink\<close>); a call that resolves new nodes leaves the builders of the
  resolved ones alone (\<open>ext\<close>), but for the builder it applies to (\<open>extK\<close>).
\<close>

definition bufShrink :: "parser \<Rightarrow> parser \<Rightarrow> bool" where
  "bufShrink p p' \<longleftrightarrow>
     (\<forall>k. buffer p' k = buffer p k \<or>
          (index p k = None \<and> index p' k \<noteq> None \<and> buffer p' k = None))"

definition ext :: "parser \<Rightarrow> parser \<Rightarrow> bool" where
  "ext p p' \<longleftrightarrow> (\<forall>k. index p k \<noteq> None \<longrightarrow> index p' k = index p k) \<and> bufShrink p p'"

definition extK :: "string \<Rightarrow> parser \<Rightarrow> parser \<Rightarrow> bool" where
  "extK K p p' \<longleftrightarrow>
     (\<forall>k. k \<noteq> K \<longrightarrow> index p k \<noteq> None \<longrightarrow> index p' k = index p k) \<and>
     (index p K \<noteq> None \<longrightarrow> index p' K \<noteq> None) \<and> bufShrink p p'"

definition frameSt :: "setTypeFn \<Rightarrow> bool" where
  "frameSt st \<longleftrightarrow>
     (\<forall>p node ty m p' r. index p (termStr node) = None \<longrightarrow> st p node ty m = (p', r) \<longrightarrow> ext p p')"

text \<open>
  The single-valued text rules (\<open>upd\<close>, \<open>updCutPrefix\<close>, \<open>updCreator\<close>, \<open>updDate\<close> and
  the \<open>algorithm\<close> closure of \<open>checksumMap\<close>): the field a rule writes and what it makes
  of the text of the object, its \<open>set\<close> flag, and the rule with the flag raised.
\<close>

fun scalarRule :: "updater \<Rightarrow> (field \<times> (string \<Rightarrow> string)) option" where
  "scalarRule (Upd fld s) = Some (fld, \<lambda>v. v)"
| "scalarRule (UpdCutPrefix pre fld s) = Some (fld, \<lambda>v. TrimPrefix v pre)"
| "scalarRule (UpdCreator fld s) = Some (fld, \<lambda>v. v)"
| "scalarRule (UpdDate fld s) = Some (fld, \<lambda>v. v)"
| "scalarRule (AlgorithmUpd s) =
     Some (F_Algo, \<lambda>v. ToUpper (ReplaceFirst v ''http://spdx.org/rdf/terms#checksumAlgorithm_'' []))"
| "scalarRule u = None"

fun isSet :: "updater \<Rightarrow> bool" where
  "isSet (Upd fld s) = s"
| "isSet (UpdCutPrefix pre fld s) = s"
| "isSet (UpdCreator fld s) = s"
| "isSet (UpdDate fld s) = s"
| "isSet (AlgorithmUpd s) = s"
| "isSet u = False"

fun markSet :: "updater \<Rightarrow> updater" where
  "markSet (Upd fld s) = Upd fld True"
| "markSet (UpdCutPrefix pre fld s) = UpdCutPrefix pre fld True"
| "markSet (UpdCreator fld s) = UpdCreator fld True"
| "markSet (UpdDate fld s) = UpdDate fld True"
| "markSet (AlgorithmUpd s) = AlgorithmUpd True"
| "markSet u = u"

text \<open>
  The bound of the model. \<open>stLe st st'\<close>: \<open>st'\<close> returns what \<open>st\<close> returns wherever \<open>st\<close>
  is not cut off. \<open>pending p\<close>: the nodes that wait in the buffer for their type.
  \<open>okFuel st d\<close>: \<open>st\<close> is not cut off on an unresolved node when at most \<open>d\<close> nodes wait.
\<close>

definition stLe :: "setTypeFn \<Rightarrow> setTypeFn \<Rightarrow> bool" where
  "stLe st st' \<longleftrightarrow>
     (\<forall>p node ty m. snd (st p node ty m) \<noteq> Inl OutOfFuel \<longrightarrow> st' p node ty m = st p node ty m)"

definition pending :: "parser \<Rightarrow> string set" where
  "pending p = {k. buffer p k \<noteq> None \<and> index p k = None}"

definition okFuel :: "setTypeFn \<Rightarrow> nat \<Rightarrow> bool" where
  "okFuel st d \<longleftrightarrow>
     (\<forall>p node ty m. index p (termStr node) = None \<longrightarrow> finite (pending p) \<longrightarrow>
        card (pending p) \<le> d \<longrightarrow> snd (st p node ty m) \<noteq> Inl OutOfFuel)"

text \<open>
  The keys that have both a builder in the index and an entry in the buffer, and the
  calls that, when they succeed, add no such key.
\<close>

definition overlap :: "parser \<Rightarrow> string set" where
  "overlap p = {k. index p k \<noteq> None \<and> buffer p k \<noteq> None}"

definition cleanSt :: "setTypeFn \<Rightarrow> bool" where
  "cleanSt st \<longleftrightarrow>
     (\<forall>p node ty m p' v. st p node ty m = (p', Inr v) \<longrightarrow> overlap p' \<subseteq> overlap p)"

section \<open>Basic facts\<close>

lemmas type_defs =
  typeDocument_def typeCreationInfo_def typePackage_def typeFile_def
  typeVerificationCode_def typeChecksum_def typeArtifactOf_def typeReview_def
  typeExtractedLicence_def typeAnyLicence_def typeConjunctiveSet_def
  typeDisjunctiveSet_def typeLicence_def typeAbstractLicenceSet_def

lemma type_values:
  "typeDocument = Uri ''http://spdx.org/rdf/terms#SpdxDocument''"
  "typeCreationInfo = Uri ''http://spdx.org/rdf/terms#CreationInfo''"
  "typePackage = Uri ''http://spdx.org/rdf/terms#Package''"
  "typeFile = Uri ''http://spdx.org/rdf/terms#File''"
  "typeVerificationCode = Uri ''http://spdx.org/rdf/terms#PackageVerificationCode''"
  "typeChecksum = Uri ''http://spdx.org/rdf/terms#Checksum''"
  "typeArtifactOf = Uri ''http://usefulinc.com/ns/doap#Project''"
  "typeReview = Uri ''http://spdx.org/rdf/terms#Review''"
  "typeExtractedLicence = Uri ''http://spdx.org/rdf/terms#ExtractedLicensingInfo''"
  "typeAnyLicence = Uri ''http://spdx.org/rdf/terms#AnyLicenseInfo''"
  "typeConjunctiveSet = Uri ''http://spdx.org/rdf/terms#ConjunctiveLicenseSet''"
  "typeDisjunctiveSet = Uri ''http://spdx.org/rdf/terms#DisjunctiveLicenseSet''"
  "typeLicence = Uri ''http://spdx.org/rdf/terms#License''"
  "typeAbstractLicenceSet = Blank ''abstractLicenceSet''"
  by (simp_all add: type_defs prefix_def rdfPrefixes_def baseUri_def blank_def)

lemma uri_nstype_value:
  "uri_nstype = Uri ''http://www.w3.org/1999/02/22-rdf-syntax-ns#type''"
  by (simp add: uri_nstype_def uri_def)

lemma shortPrefix_nstype: "shortPrefix (uri ''ns:type'') = ''ns:type''"
  by (simp add: shortPrefix_def uri_def rdfPrefixes_def baseUri_def HasPrefix_def)

lemma equalTypes_single: "equalTypes found [need] = (found = need)"
  by simp

lemma index_modBuilder:
  "index (modBuilder K f p) k =
     (if k = K then (case index p K of Some (Some b) \<Rightarrow> Some (Some (f b)) | x \<Rightarrow> x)
      else index p k)"
  by (simp add: modBuilder_def split: option.splits)

lemma buffer_modBuilder: "buffer (modBuilder K f p) = buffer p"
  by (simp add: modBuilder_def split: option.splits)

lemma doc_modBuilder: "doc (modBuilder K f p) = doc p"
  by (simp add: modBuilder_def split: option.splits)

lemma modBuilder_Some:
  "index p K = Some (Some b) \<Longrightarrow> modBuilder K f p = p\<lparr>index := (index p)(K \<mapsto> Some (f b))\<rparr>"
  by (simp add: modBuilder_def)

section \<open>What a call leaves alone\<close>

lemma ext_refl: "ext p p"
  by (simp add: ext_def bufShrink_def)

lemma extK_refl: "extK K p p"
  by (simp add: extK_def bufShrink_def)

lemma ext_extK: "ext p p' \<Longrightarrow> extK K p p'"
  by (auto simp: ext_def extK_def)

lemma extK_mono: "extK K p p' \<Longrightarrow> index p k \<noteq> None \<Longrightarrow> index p' k \<noteq> None"
  by (cases "k = K") (auto simp: extK_def)

lemma extK_trans:
  assumes "extK K p p1" "extK K p1 p2"
  shows "extK K p p2"
proof -
  have m1: "\<forall>k. index p k \<noteq> None \<longrightarrow> index p1 k \<noteq> None"
    using assms(1) extK_mono by blast
  have m2: "\<forall>k. index p1 k \<noteq> None \<longrightarrow> index p2 k \<noteq> None"
    using assms(2) extK_mono by blast
  have f: "\<forall>k. k \<noteq> K \<longrightarrow> index p k \<noteq> None \<longrightarrow> index p2 k = index p k"
    using assms m1 unfolding extK_def by metis
  have b: "bufShrink p p2"
    unfolding bufShrink_def
  proof
    fix k
    have b1: "buffer p1 k = buffer p k \<or> (index p k = None \<and> index p1 k \<noteq> None \<and> buffer p1 k = None)"
      using assms(1) unfolding extK_def bufShrink_def by blast
    have b2: "buffer p2 k = buffer p1 k \<or> (index p1 k = None \<and> index p2 k \<noteq> None \<and> buffer p2 k = None)"
      using assms(2) unfolding extK_def bufShrink_def by blast
    show "buffer p2 k = buffer p k \<or> (index p k = None \<and> index p2 k \<noteq> None \<and> buffer p2 k = None)"
      using b1 b2 m1 m2 by (metis option.distinct(1))
  qed
  show ?thesis unfolding extK_def using f b m1 m2 by blast
qed

lemma ext_trans:
  assumes "ext p p1" "ext p1 p2"
  shows "ext p p2"
proof -
  have e: "extK undefined p p2"
    using assms ext_extK extK_trans by blast
  have "\<forall>k. index p k \<noteq> None \<longrightarrow> index p2 k = index p k"
    using assms unfolding ext_def by metis
  then show ?thesis using e unfolding ext_def extK_def by blast
qed

lemma ext_then_extK: "ext p p1 \<Longrightarrow> extK K p1 p2 \<Longrightarrow> extK K p p2"
  using ext_extK extK_trans by blast

lemma extK_modBuilder: "extK K p (modBuilder K f p)"
  by (auto simp: extK_def bufShrink_def index_modBuilder buffer_modBuilder split: option.splits)

lemma extK_modEntity: "extK K p (modEntity K f p)"
  by (simp add: modEntity_def extK_modBuilder)

lemma extK_setFlag: "extK K p (setFlag K prop u p)"
  by (simp add: setFlag_def extK_modBuilder)

lemma frameStD:
  "frameSt st \<Longrightarrow> index p (termStr node) = None \<Longrightarrow> st p node ty m = (p', r) \<Longrightarrow> ext p p'"
  unfolding frameSt_def by blast

lemma reqType_w_ext:
  "frameSt st \<Longrightarrow> reqType_w st p node ty = (p', r) \<Longrightarrow> ext p p'"
  by (auto simp: reqType_w_def ext_refl split: option.splits if_splits dest: frameStD)

lemma reqAs_ext:
  "frameSt st \<Longrightarrow> reqAs st ty g p node = (p', r) \<Longrightarrow> ext p p'"
  by (auto simp: reqAs_def split: prod.splits sum.splits option.splits if_splits
      dest: reqType_w_ext)

lemma req_w_ext:
  "frameSt st \<Longrightarrow> req_w st rq p node = (p', r) \<Longrightarrow> ext p p'"
  by (cases rq)
     (auto simp: reqDocument_w_def reqCreationInfo_w_def reqPackage_w_def reqFile_w_def
        reqVerificationCode_w_def reqChecksum_w_def reqReview_w_def
        reqExtractedLicence_w_def reqArtifactOf_w_def dest: reqAs_ext)

lemma reqAnyLicence_w_ext:
  "frameSt st \<Longrightarrow> reqAnyLicence_w st p node = (p', r) \<Longrightarrow> ext p p'"
  by (auto simp: reqAnyLicence_w_def
      split: prod.splits sum.splits option.splits if_splits gotype.splits
      dest: reqType_w_ext)

lemma nsType_extK: "nsType p K obj m = (p', r) \<Longrightarrow> extK K p p'"
  by (auto simp: nsType_def Let_def extK_refl extK_modBuilder
      split: option.splits if_splits)

lemma runUpdater_extK:
  "frameSt st \<Longrightarrow> runUpdater st p K prop u obj m = (p', r) \<Longrightarrow> extK K p p'"
proof (cases u)
  case (RefAssign rq fld)
  assume "frameSt st" "runUpdater st p K prop u obj m = (p', r)"
  then show ?thesis using RefAssign
    by (auto split: prod.splits sum.splits if_splits
        dest!: req_w_ext intro: ext_then_extK extK_modEntity ext_extK)
next
  case (RefAppend rq fld)
  assume "frameSt st" "runUpdater st p K prop u obj m = (p', r)"
  then show ?thesis using RefAppend
    by (auto split: prod.splits sum.splits if_splits
        dest!: req_w_ext intro: ext_then_extK extK_modEntity ext_extK)
next
  case (LicAssign fld)
  assume "frameSt st" "runUpdater st p K prop u obj m = (p', r)"
  then show ?thesis using LicAssign
    by (auto split: prod.splits sum.splits if_splits
        dest!: reqAnyLicence_w_ext intro: ext_then_extK extK_modEntity ext_extK)
next
  case (LicAppend fld)
  assume "frameSt st" "runUpdater st p K prop u obj m = (p', r)"
  then show ?thesis using LicAppend
    by (auto split: prod.splits sum.splits if_splits
        dest!: reqAnyLicence_w_ext intro: ext_then_extK extK_modEntity ext_extK)
next
  case MemberUpd
  assume "frameSt st" "runUpdater st p K prop u obj m = (p', r)"
  then show ?thesis using MemberUpd
    by (auto split: prod.splits sum.splits if_splits
        dest!: reqAnyLicence_w_ext intro: ext_then_extK extK_modEntity ext_extK)
next
  case NsTypeUpd
  assume "frameSt st" "runUpdater st p K prop u obj m = (p', r)"
  then show ?thesis using NsTypeUpd by (auto dest: nsType_extK)
qed (auto simp: Let_def extK_refl split: if_splits
      intro!: extK_trans[OF extK_modEntity extK_setFlag] extK_modEntity)

lemma apply_w_extK:
  "frameSt st \<Longrightarrow> apply_w st p K pred obj m = (p', r) \<Longrightarrow> extK K p p'"
  by (auto simp: apply_w_def Let_def extK_refl split: option.splits dest: runUpdater_extK)

lemma runBuffer_extK:
  "frameSt st \<Longrightarrow> runBuffer st p K buf = (p', r) \<Longrightarrow> extK K p p'"
proof (induction buf arbitrary: p)
  case Nil
  then show ?case by (simp add: extK_refl)
next
  case (Cons s buf)
  obtain p1 r1 where a: "apply_w st p K (Predicate (Statement s)) (Object (Statement s)) (BMeta s) = (p1, r1)"
    by (cases "apply_w st p K (Predicate (Statement s)) (Object (Statement s)) (BMeta s)")
  have e1: "extK K p p1" using apply_w_extK[OF Cons.prems(1) a] .
  show ?case
  proof (cases r1)
    case None
    then have "runBuffer st p1 K buf = (p', r)" using Cons.prems(2) a by simp
    then have "extK K p1 p'" using Cons.IH Cons.prems(1) by blast
    then show ?thesis using e1 extK_trans by blast
  next
    case (Some e)
    then have "p' = p1" using Cons.prems(2) a by simp
    then show ?thesis using e1 by simp
  qed
qed

lemma newBuilder_parser:
  "newBuilder p node ty m = Inr (p1, bo) \<Longrightarrow> index p1 = index p \<and> buffer p1 = buffer p"
  by (auto simp: newBuilder_def split: if_splits rdfterm.splits)

lemma setType_w_unresolved:
  "index p (termStr node) = None \<Longrightarrow> newBuilder p node ty m = Inr (p1, bo) \<Longrightarrow>
   runBuffer st (p1\<lparr>index := (index p1)(termStr node \<mapsto> bo)\<rparr>) (termStr node)
     (case buffer p1 (termStr node) of None \<Rightarrow> [] | Some b \<Rightarrow> b) = (p3, r3) \<Longrightarrow>
   setType_w st p node ty m =
     (case r3 of
        Some e \<Rightarrow> (p3, Inl e)
      | None \<Rightarrow> (p3\<lparr>buffer := (buffer p3)(termStr node := None)\<rparr>,
                 case bo of None \<Rightarrow> Inl Panic | Some b \<Rightarrow> Inr (termStr node)))"
  by (simp add: setType_w_def Let_def split: option.splits)

lemma setType_w_unresolved_ext:
  assumes fs: "frameSt st" and un: "index p (termStr node) = None"
    and eq: "setType_w st p node ty m = (p', r)"
  shows "ext p p'"
proof (cases "newBuilder p node ty m")
  case (Inl e)
  then show ?thesis using un eq by (simp add: setType_w_def ext_refl)
next
  case (Inr pb)
  obtain p1 bo where pb: "pb = (p1, bo)" by (cases pb)
  define K where "K = termStr node"
  define p2 where "p2 = p1\<lparr>index := (index p1)(K \<mapsto> bo)\<rparr>"
  define buf where "buf = (case buffer p1 K of None \<Rightarrow> [] | Some b \<Rightarrow> b)"
  obtain p3 r3 where rb: "runBuffer st p2 K buf = (p3, r3)"
    by (cases "runBuffer st p2 K buf")
  have ip1: "index p1 = index p" "buffer p1 = buffer p"
    using newBuilder_parser Inr pb by blast+
  have e23: "extK K p2 p3" using runBuffer_extK[OF fs rb] .
  have i2: "index p2 = (index p)(K \<mapsto> bo)" "buffer p2 = buffer p"
    by (simp_all add: p2_def ip1)
  have fr: "\<forall>k. index p k \<noteq> None \<longrightarrow> index p3 k = index p k"
    using e23 i2 un unfolding extK_def K_def by (metis fun_upd_apply)
  have k3: "index p3 K \<noteq> None" using e23 i2 unfolding extK_def by simp
  have bs: "\<forall>k. buffer p3 k = buffer p k \<or> (index p k = None \<and> index p3 k \<noteq> None \<and> buffer p3 k = None)"
  proof
    fix k
    have "buffer p3 k = buffer p2 k \<or> (index p2 k = None \<and> index p3 k \<noteq> None \<and> buffer p3 k = None)"
      using e23 unfolding extK_def bufShrink_def by blast
    then show "buffer p3 k = buffer p k \<or> (index p k = None \<and> index p3 k \<noteq> None \<and> buffer p3 k = None)"
      using i2 by (auto split: if_splits)
  qed
  have res: "(p', r) = (case r3 of Some e \<Rightarrow> (p3, Inl e)
      | None \<Rightarrow> (case bo of None \<Rightarrow> (p3\<lparr>buffer := (buffer p3)(K := None)\<rparr>, Inl Panic)
                  | Some b \<Rightarrow> (p3\<lparr>buffer := (buffer p3)(K := None)\<rparr>, Inr K)))"
    using setType_w_unresolved[OF un, of ty m p1 bo st p3 r3] eq Inr pb rb
    unfolding p2_def buf_def K_def by (simp split: option.splits)
  show ?thesis
  proof (cases r3)
    case (Some e)
    then have "p' = p3" using res by simp
    then show ?thesis using fr bs by (simp add: ext_def bufShrink_def)
  next
    case None
    then have p': "p' = p3\<lparr>buffer := (buffer p3)(K := None)\<rparr>"
      using res by (simp split: option.splits)
    show ?thesis unfolding ext_def bufShrink_def
    proof (intro conjI allI impI)
      fix k assume "index p k \<noteq> None"
      then show "index p' k = index p k" using fr p' by simp
    next
      fix k
      show "buffer p' k = buffer p k \<or> (index p k = None \<and> index p' k \<noteq> None \<and> buffer p' k = None)"
      proof (cases "k = K")
        case True
        then show ?thesis using p' un k3 K_def by simp
      next
        case False
        then show ?thesis using bs p' by simp
      qed
    qed
  qed
qed

lemma frameSt_setType: "frameSt (setType n)"
proof (induction n)
  case 0
  then show ?case by (simp add: frameSt_def ext_refl)
next
  case (Suc n)
  show ?case
    unfolding frameSt_def
  proof (intro allI impI)
    fix p node ty m p' r
    assume "index p (termStr node) = None" "setType (Suc n) p node ty m = (p', r)"
    then show "ext p p'" using setType_w_unresolved_ext[OF Suc] by simp
  qed
qed

lemma setType_w_extK:
  assumes fs: "frameSt st" and eq: "setType_w st p node ty m = (p', r)"
  shows "extK (termStr node) p p'"
proof (cases "index p (termStr node)")
  case None
  then show ?thesis using setType_w_unresolved_ext[OF fs None eq] ext_extK by blast
next
  case (Some bo)
  then show ?thesis using eq fs
    by (auto simp: setType_w_def Let_def extK_refl
        split: option.splits if_splits prod.splits dest: apply_w_extK)
qed

lemma setType_extK: "setType n p node ty m = (p', r) \<Longrightarrow> extK (termStr node) p p'"
proof (cases n)
  case 0
  assume "setType n p node ty m = (p', r)"
  then show ?thesis using 0 by (auto simp: extK_refl)
next
  case (Suc k)
  assume "setType n p node ty m = (p', r)"
  then show ?thesis using Suc setType_w_extK[OF frameSt_setType] by simp
qed

lemma reqAnyLicence_frame:
  "reqAnyLicence n p node = (p', r) \<Longrightarrow> index p K \<noteq> None \<Longrightarrow> index p' K = index p K"
  using reqAnyLicence_w_ext[OF frameSt_setType] unfolding reqAnyLicence_def ext_def by blast

lemma setType_new_nobuffer:
  "index p (termStr node) = None \<Longrightarrow> buffer p (termStr node) = None \<Longrightarrow>
   newBuilder p node ty m = Inr (p1, Some b) \<Longrightarrow>
   setType (Suc n) p node ty m =
     (p1\<lparr>index := (index p1)(termStr node \<mapsto> Some b),
         buffer := (buffer p1)(termStr node := None)\<rparr>, Inr (termStr node))"
  by (simp add: setType_w_def Let_def newBuilder_parser)

lemma shortPrefix_base: "shortPrefix (Uri (baseUri @ s)) = shortPrefixIn rdfPrefixes (baseUri @ s)"
  by (simp add: shortPrefix_def)

section \<open>Single updaters\<close>

lemma runUpdater_scalar_first:
  "index p K = Some (Some b) \<Longrightarrow> scalarRule u = Some (fld, g) \<Longrightarrow> \<not> isSet u \<Longrightarrow>
   runUpdater st p K prop u obj m =
     (p\<lparr>index := (index p)(K \<mapsto> Some (b\<lparr>b_ptr := setStr fld \<lparr>Val = g (termStr obj), Meta = m\<rparr> (b_ptr b),
           b_updaters := (b_updaters b)(prop \<mapsto> markSet u)\<rparr>))\<rparr>, None)"
  by (cases u) (auto simp: setFlag_def modEntity_def modBuilder_def Let_def)

lemma runUpdater_scalar_again:
  "scalarRule u = Some (fld, g) \<Longrightarrow> isSet u \<Longrightarrow>
   runUpdater st p K prop u obj m = (p, Some (ParseError MsgAlreadyDefined m))"
  by (cases u) auto

lemma isSet_markSet: "scalarRule u = Some fg \<Longrightarrow> isSet (markSet u)"
  by (cases u) auto

lemma scalarRule_markSet: "scalarRule (markSet u) = scalarRule u"
  by (cases u) auto

lemma shortPrefix_baseUri:
  "shortPrefix (Uri (baseUri @ ''name'')) = ''name''"
  "shortPrefix (Uri (baseUri @ ''member'')) = ''member''"
  "shortPrefix (Uri (baseUri @ ''creationInfo'')) = ''creationInfo''"
  "shortPrefix (Uri (baseUri @ ''checksum'')) = ''checksum''"
  by (simp_all add: shortPrefix_def rdfPrefixes_def baseUri_def HasPrefix_def)

lemma setType_key: "setType n p node ty m = (p', Inr v) \<Longrightarrow> v = termStr node"
proof (cases n)
  case 0
  assume "setType n p node ty m = (p', Inr v)"
  then show ?thesis using 0 by simp
next
  case (Suc k)
  assume "setType n p node ty m = (p', Inr v)"
  then show ?thesis using Suc
    by (auto simp: setType_w_def Let_def
        split: option.splits if_splits prod.splits sum.splits)
qed

lemma reqAs_key: "reqAs (setType n) ty g p node = (p', Inr k) \<Longrightarrow> k = termStr node"
  by (auto simp: reqAs_def reqType_w_def
      split: prod.splits sum.splits option.splits if_splits dest: setType_key)

lemma req_key: "req_w (setType n) rq p node = (p', Inr k) \<Longrightarrow> k = termStr node"
  by (cases rq)
     (auto simp: reqDocument_w_def reqCreationInfo_w_def reqPackage_w_def reqFile_w_def
        reqVerificationCode_w_def reqChecksum_w_def reqReview_w_def
        reqExtractedLicence_w_def reqArtifactOf_w_def dest: reqAs_key)

lemma req_frame:
  "req_w (setType n) rq p node = (p', r) \<Longrightarrow> index p K \<noteq> None \<Longrightarrow> index p' K = index p K"
  using req_w_ext[OF frameSt_setType] unfolding ext_def by blast

lemma runUpdater_RefAssign:
  "req_w (setType n) rq p obj = (p', Inr k) \<Longrightarrow> index p K = Some (Some b) \<Longrightarrow>
   runUpdater (setType n) p K prop (RefAssign rq fld) obj m =
     (p'\<lparr>index := (index p')(K \<mapsto> Some (b\<lparr>b_ptr := setPtr fld (Some k) (b_ptr b)\<rparr>))\<rparr>, None)"
  using req_frame[of n rq p obj p' "Inr k" K]
  by (simp add: modEntity_def modBuilder_def)

lemma runUpdater_LicAssign:
  "reqAnyLicence n p obj = (p', Inr lic) \<Longrightarrow> index p K = Some (Some b) \<Longrightarrow>
   runUpdater (setType n) p K prop (LicAssign fld) obj m =
     (p'\<lparr>index := (index p')(K \<mapsto> Some (b\<lparr>b_ptr := setLic fld (Some lic) (b_ptr b)\<rparr>))\<rparr>, None)"
  using reqAnyLicence_frame[of n p obj p' "Inr lic" K]
  by (simp add: modEntity_def modBuilder_def reqAnyLicence_def)

lemma shortPrefix_licenseConcluded:
  "shortPrefix (Uri (baseUri @ ''licenseConcluded'')) = ''licenseConcluded''"
  by (simp add: shortPrefix_def rdfPrefixes_def baseUri_def HasPrefix_def)

section \<open>The bound of the nesting depth\<close>

subsection \<open>More fuel changes no result\<close>

lemma stLeD: "stLe st st' \<Longrightarrow> snd (st p node ty m) \<noteq> Inl OutOfFuel \<Longrightarrow> st' p node ty m = st p node ty m"
  unfolding stLe_def by blast

lemma reqType_w_mono:
  "stLe st st' \<Longrightarrow> snd (reqType_w st p node ty) \<noteq> Inl OutOfFuel \<Longrightarrow>
   reqType_w st' p node ty = reqType_w st p node ty"
  by (auto simp: reqType_w_def split: option.splits dest: stLeD)

lemma reqAs_mono:
  assumes "stLe st st'" "snd (reqAs st ty g p node) \<noteq> Inl OutOfFuel"
  shows "reqAs st' ty g p node = reqAs st ty g p node"
proof -
  have "snd (reqType_w st p node ty) \<noteq> Inl OutOfFuel"
    using assms(2) by (auto simp: reqAs_def split: prod.splits sum.splits)
  then have "reqType_w st' p node ty = reqType_w st p node ty"
    using reqType_w_mono assms(1) by blast
  then show ?thesis by (simp add: reqAs_def)
qed

lemma req_w_mono:
  "stLe st st' \<Longrightarrow> snd (req_w st rq p node) \<noteq> Inl OutOfFuel \<Longrightarrow>
   req_w st' rq p node = req_w st rq p node"
  by (cases rq)
     (simp_all add: reqDocument_w_def reqCreationInfo_w_def reqPackage_w_def reqFile_w_def
        reqVerificationCode_w_def reqChecksum_w_def reqReview_w_def
        reqExtractedLicence_w_def reqArtifactOf_w_def reqAs_mono)

lemma reqAnyLicence_w_mono:
  assumes "stLe st st'" "snd (reqAnyLicence_w st p node) \<noteq> Inl OutOfFuel"
  shows "reqAnyLicence_w st' p node = reqAnyLicence_w st p node"
proof -
  have "snd (reqType_w st p node typeAnyLicence) \<noteq> Inl OutOfFuel"
    using assms(2) by (auto simp: reqAnyLicence_w_def split: prod.splits sum.splits)
  then have "reqType_w st' p node typeAnyLicence = reqType_w st p node typeAnyLicence"
    using reqType_w_mono assms(1) by blast
  then show ?thesis by (simp add: reqAnyLicence_w_def)
qed

lemma runUpdater_mono:
  assumes le: "stLe st st'" and ok: "snd (runUpdater st p K prop u obj m) \<noteq> Some OutOfFuel"
  shows "runUpdater st' p K prop u obj m = runUpdater st p K prop u obj m"
proof -
  have rq: "req_w st' rq p obj = req_w st rq p obj"
    if "u = RefAssign rq fld \<or> u = RefAppend rq fld" for rq fld
  proof -
    have "snd (req_w st rq p obj) \<noteq> Inl OutOfFuel"
      using that ok by (auto split: prod.splits sum.splits if_splits)
    then show ?thesis using req_w_mono le by blast
  qed
  have lc: "reqAnyLicence_w st' p obj = reqAnyLicence_w st p obj"
    if "u = LicAssign fld \<or> u = LicAppend fld \<or> u = MemberUpd" for fld
  proof -
    have "snd (reqAnyLicence_w st p obj) \<noteq> Inl OutOfFuel"
      using that ok by (auto split: prod.splits sum.splits if_splits)
    then show ?thesis using reqAnyLicence_w_mono le by blast
  qed
  show ?thesis using rq lc by (cases u) simp_all
qed

lemma apply_w_mono:
  "stLe st st' \<Longrightarrow> snd (apply_w st p K pred obj m) \<noteq> Some OutOfFuel \<Longrightarrow>
   apply_w st' p K pred obj m = apply_w st p K pred obj m"
  by (auto simp: apply_w_def Let_def split: option.splits intro: runUpdater_mono)

lemma runBuffer_mono:
  "stLe st st' \<Longrightarrow> snd (runBuffer st p K buf) \<noteq> Some OutOfFuel \<Longrightarrow>
   runBuffer st' p K buf = runBuffer st p K buf"
proof (induction buf arbitrary: p)
  case Nil
  then show ?case by simp
next
  case (Cons s buf)
  let ?a = "apply_w st p K (Predicate (Statement s)) (Object (Statement s)) (BMeta s)"
  have na: "snd ?a \<noteq> Some OutOfFuel"
    using Cons.prems(2) by (auto split: prod.splits option.splits)
  have ea: "apply_w st' p K (Predicate (Statement s)) (Object (Statement s)) (BMeta s) = ?a"
    using apply_w_mono[OF Cons.prems(1) na] .
  show ?case
  proof (cases ?a)
    case (Pair p1 r1)
    show ?thesis
    proof (cases r1)
      case None
      then have "snd (runBuffer st p1 K buf) \<noteq> Some OutOfFuel"
        using Cons.prems(2) Pair by simp
      then have "runBuffer st' p1 K buf = runBuffer st p1 K buf"
        using Cons.IH Cons.prems(1) by blast
      then show ?thesis using ea Pair None by simp
    next
      case (Some e)
      then show ?thesis using ea Pair by simp
    qed
  qed
qed

lemma setType_w_mono:
  assumes le: "stLe st st'" and ok: "snd (setType_w st p node ty m) \<noteq> Inl OutOfFuel"
  shows "setType_w st' p node ty m = setType_w st p node ty m"
proof (cases "index p (termStr node)")
  case None
  show ?thesis
  proof (cases "newBuilder p node ty m")
    case (Inl e)
    then show ?thesis using None by (simp add: setType_w_def)
  next
    case (Inr pb)
    obtain p1 bo where pb: "pb = (p1, bo)" by (cases pb)
    let ?p2 = "p1\<lparr>index := (index p1)(termStr node \<mapsto> bo)\<rparr>"
    let ?buf = "case buffer p1 (termStr node) of None \<Rightarrow> [] | Some b \<Rightarrow> b"
    obtain p3 r3 where rb: "runBuffer st ?p2 (termStr node) ?buf = (p3, r3)"
      by (cases "runBuffer st ?p2 (termStr node) ?buf")
    have "r3 \<noteq> Some OutOfFuel"
      using ok setType_w_unresolved[OF None, of ty m p1 bo st p3 r3] Inr pb rb
      by (auto split: option.splits)
    then have "runBuffer st' ?p2 (termStr node) ?buf = (p3, r3)"
      using runBuffer_mono[OF le, of ?p2 "termStr node" ?buf] rb by simp
    then show ?thesis
      using setType_w_unresolved[OF None, of ty m p1 bo st p3 r3]
        setType_w_unresolved[OF None, of ty m p1 bo st' p3 r3] Inr pb rb by simp
  qed
next
  case (Some bo)
  show ?thesis
  proof (cases bo)
    case None
    then show ?thesis using Some by (simp add: setType_w_def)
  next
    case (Some bldr)
    show ?thesis
    proof (cases "\<not> equalTypes (b_t bldr) [ty] \<and> has bldr ''ns:type''")
      case True
      have "snd (apply_w st p (termStr node) (uri ''ns:type'') ty m) \<noteq> Some OutOfFuel"
        using ok True Some \<open>index p (termStr node) = Some bo\<close>
        by (auto simp: setType_w_def Let_def split: prod.splits option.splits)
      then have "apply_w st' p (termStr node) (uri ''ns:type'') ty m
          = apply_w st p (termStr node) (uri ''ns:type'') ty m"
        using apply_w_mono le by blast
      then show ?thesis
        using True Some \<open>index p (termStr node) = Some bo\<close>
        by (simp add: setType_w_def Let_def)
    next
      case False
      then show ?thesis
        using Some \<open>index p (termStr node) = Some bo\<close>
        by (auto simp: setType_w_def Let_def)
    qed
  qed
qed

lemma stLe_setType_Suc: "stLe (setType n) (setType (Suc n))"
proof (induction n)
  case 0
  then show ?case by (simp add: stLe_def)
next
  case (Suc n)
  show ?case unfolding stLe_def
  proof (intro allI impI)
    fix p node ty m
    assume "snd (setType (Suc n) p node ty m) \<noteq> Inl OutOfFuel"
    then show "setType (Suc (Suc n)) p node ty m = setType (Suc n) p node ty m"
      using setType_w_mono[OF Suc] by simp
  qed
qed

lemma stLe_setType: "n \<le> n' \<Longrightarrow> stLe (setType n) (setType n')"
proof (induction n' arbitrary: n)
  case 0
  then show ?case by (simp add: stLe_def)
next
  case (Suc n')
  show ?case
  proof (cases "n = Suc n'")
    case True
    then show ?thesis by (simp add: stLe_def)
  next
    case False
    then have "stLe (setType n) (setType n')" using Suc by simp
    then show ?thesis using stLe_setType_Suc[of n'] unfolding stLe_def by metis
  qed
qed

lemma processTruple_mono:
  assumes "n \<le> n'" "snd (processTruple n p stm m) \<noteq> Some OutOfFuel"
  shows "processTruple n' p stm m = processTruple n p stm m"
proof (cases "Predicate stm = uri_nstype")
  case True
  have "snd (setType n p (Subject stm) (Object stm) m) \<noteq> Inl OutOfFuel"
    using assms(2) True by (auto simp: processTruple_def split: prod.splits sum.splits)
  then have "setType n' p (Subject stm) (Object stm) m = setType n p (Subject stm) (Object stm) m"
    using stLe_setType[OF assms(1)] stLeD by blast
  then show ?thesis using True by (simp add: processTruple_def)
next
  case False
  show ?thesis
  proof (cases "index p (termStr (Subject stm))")
    case None
    then show ?thesis using False by (simp add: processTruple_def Let_def)
  next
    case (Some bo)
    have "snd (apply_w (setType n) p (termStr (Subject stm)) (Predicate stm) (Object stm) m)
        \<noteq> Some OutOfFuel"
      using assms(2) False Some by (simp add: processTruple_def Let_def apply_b_def)
    then show ?thesis
      using apply_w_mono[OF stLe_setType[OF assms(1)]] False Some
      by (simp add: processTruple_def Let_def apply_b_def)
  qed
qed

lemma parseLoop_mono:
  "n \<le> n' \<Longrightarrow> snd (parseLoop n p ts) \<noteq> Some OutOfFuel \<Longrightarrow>
   parseLoop n' p ts = parseLoop n p ts"
proof (induction ts arbitrary: p)
  case Nil
  then show ?case by simp
next
  case (Cons t ts)
  obtain stm line where t: "t = (stm, line)" by (cases t)
  obtain p1 r1 where pt: "processTruple n p stm (Some line) = (p1, r1)"
    by (cases "processTruple n p stm (Some line)")
  have "r1 \<noteq> Some OutOfFuel" using Cons.prems(2) t pt by (auto split: option.splits)
  then have e: "processTruple n' p stm (Some line) = (p1, r1)"
    using processTruple_mono[OF Cons.prems(1), of p stm "Some line"] pt by simp
  show ?case
  proof (cases r1)
    case None
    then have "snd (parseLoop n p1 ts) \<noteq> Some OutOfFuel" using Cons.prems(2) t pt by simp
    then show ?thesis using Cons.IH[OF Cons.prems(1)] t pt e None by simp
  next
    case (Some e')
    then show ?thesis using t pt e by simp
  qed
qed

subsection \<open>The waiting nodes bound the depth\<close>

lemma pending_extK: "extK K p p' \<Longrightarrow> pending p' \<subseteq> pending p"
proof
  fix k assume e: "extK K p p'" and k: "k \<in> pending p'"
  have b: "buffer p' k = buffer p k \<or> (index p k = None \<and> index p' k \<noteq> None \<and> buffer p' k = None)"
    using e unfolding extK_def bufShrink_def by blast
  have "index p k \<noteq> None \<longrightarrow> index p' k \<noteq> None" using extK_mono[OF e, of k] by blast
  then have "index p k = None" using k by (auto simp: pending_def)
  then show "k \<in> pending p" using b k by (auto simp: pending_def)
qed

lemma pending_card_extK:
  "extK K p p' \<Longrightarrow> finite (pending p) \<Longrightarrow> finite (pending p') \<and> card (pending p') \<le> card (pending p)"
  using pending_extK[of K p p'] by (simp add: card_mono finite_subset)

lemma okFuelD:
  "okFuel st d \<Longrightarrow> index p (termStr node) = None \<Longrightarrow> finite (pending p) \<Longrightarrow>
   card (pending p) \<le> d \<Longrightarrow> snd (st p node ty m) \<noteq> Inl OutOfFuel"
  unfolding okFuel_def by blast

lemma reqType_w_fuel:
  "okFuel st d \<Longrightarrow> finite (pending p) \<Longrightarrow> card (pending p) \<le> d \<Longrightarrow>
   snd (reqType_w st p node ty) \<noteq> Inl OutOfFuel"
  by (auto simp: reqType_w_def split: option.splits dest: okFuelD)

lemma reqAs_fuel:
  assumes "okFuel st d" "finite (pending p)" "card (pending p) \<le> d"
  shows "snd (reqAs st ty g p node) \<noteq> Inl OutOfFuel"
  using reqType_w_fuel[OF assms, of node ty]
  by (auto simp: reqAs_def split: prod.splits sum.splits option.splits)

lemma req_w_fuel:
  "okFuel st d \<Longrightarrow> finite (pending p) \<Longrightarrow> card (pending p) \<le> d \<Longrightarrow>
   snd (req_w st rq p node) \<noteq> Inl OutOfFuel"
  by (cases rq)
     (simp_all add: reqDocument_w_def reqCreationInfo_w_def reqPackage_w_def reqFile_w_def
        reqVerificationCode_w_def reqChecksum_w_def reqReview_w_def
        reqExtractedLicence_w_def reqArtifactOf_w_def reqAs_fuel)

lemma reqAnyLicence_w_fuel:
  assumes "okFuel st d" "finite (pending p)" "card (pending p) \<le> d"
  shows "snd (reqAnyLicence_w st p node) \<noteq> Inl OutOfFuel"
  using reqType_w_fuel[OF assms, of node typeAnyLicence]
  by (auto simp: reqAnyLicence_w_def split: prod.splits sum.splits option.splits gotype.splits)

lemma nsType_fuel: "snd (nsType p K obj m) \<noteq> Some OutOfFuel"
  by (auto simp: nsType_def Let_def split: option.splits)

lemma runUpdater_fuel:
  assumes "okFuel st d" "finite (pending p)" "card (pending p) \<le> d"
  shows "snd (runUpdater st p K prop u obj m) \<noteq> Some OutOfFuel"
proof (cases u)
  case (RefAssign rq fld)
  then show ?thesis using req_w_fuel[OF assms, of rq obj]
    by (auto split: prod.splits sum.splits)
next
  case (RefAppend rq fld)
  then show ?thesis using req_w_fuel[OF assms, of rq obj]
    by (auto split: prod.splits sum.splits)
next
  case (LicAssign fld)
  then show ?thesis using reqAnyLicence_w_fuel[OF assms, of obj]
    by (auto split: prod.splits sum.splits)
next
  case (LicAppend fld)
  then show ?thesis using reqAnyLicence_w_fuel[OF assms, of obj]
    by (auto split: prod.splits sum.splits)
next
  case MemberUpd
  then show ?thesis using reqAnyLicence_w_fuel[OF assms, of obj]
    by (auto split: prod.splits sum.splits)
next
  case NsTypeUpd
  then show ?thesis by (simp add: nsType_fuel)
qed (auto simp: Let_def)

lemma apply_w_fuel:
  "okFuel st d \<Longrightarrow> finite (pending p) \<Longrightarrow> card (pending p) \<le> d \<Longrightarrow>
   snd (apply_w st p K pred obj m) \<noteq> Some OutOfFuel"
  by (auto simp: apply_w_def Let_def split: option.splits dest: runUpdater_fuel)

lemma runBuffer_fuel:
  "okFuel st d \<Longrightarrow> frameSt st \<Longrightarrow> finite (pending p) \<Longrightarrow> card (pending p) \<le> d \<Longrightarrow>
   snd (runBuffer st p K buf) \<noteq> Some OutOfFuel"
proof (induction buf arbitrary: p)
  case Nil
  then show ?case by simp
next
  case (Cons s buf)
  obtain p1 r1 where a: "apply_w st p K (Predicate (Statement s)) (Object (Statement s)) (BMeta s) = (p1, r1)"
    by (cases "apply_w st p K (Predicate (Statement s)) (Object (Statement s)) (BMeta s)")
  have r1: "r1 \<noteq> Some OutOfFuel"
    using apply_w_fuel[OF Cons.prems(1,3,4), of K "Predicate (Statement s)" "Object (Statement s)" "BMeta s"] a
    by simp
  have "finite (pending p1) \<and> card (pending p1) \<le> card (pending p)"
    using pending_card_extK[OF apply_w_extK[OF Cons.prems(2) a] Cons.prems(3)] .
  then have "snd (runBuffer st p1 K buf) \<noteq> Some OutOfFuel"
    using Cons.IH[OF Cons.prems(1,2), of p1] Cons.prems(4) by simp
  then show ?case using a r1 by (cases r1) simp_all
qed

lemma newBuilder_no_fuel: "newBuilder p node ty m \<noteq> Inl OutOfFuel"
  by (auto simp: newBuilder_def split: rdfterm.splits)

lemma setType_w_okFuel:
  assumes fs: "frameSt st" and ih: "0 < d \<Longrightarrow> okFuel st (d - 1)"
  shows "okFuel (setType_w st) d"
  unfolding okFuel_def
proof (intro allI impI)
  fix p node ty m
  assume un: "index p (termStr node) = None" and fin: "finite (pending p)"
    and c: "card (pending p) \<le> d"
  show "snd (setType_w st p node ty m) \<noteq> Inl OutOfFuel"
  proof (cases "newBuilder p node ty m")
    case (Inl e)
    then show ?thesis using un newBuilder_no_fuel[of p node ty m] by (simp add: setType_w_def)
  next
    case (Inr pb)
    obtain p1 bo where pb: "pb = (p1, bo)" by (cases pb)
    let ?K = "termStr node"
    let ?p2 = "p1\<lparr>index := (index p1)(?K \<mapsto> bo)\<rparr>"
    let ?buf = "case buffer p1 ?K of None \<Rightarrow> [] | Some b \<Rightarrow> b"
    obtain p3 r3 where rb: "runBuffer st ?p2 ?K ?buf = (p3, r3)"
      by (cases "runBuffer st ?p2 ?K ?buf")
    have ip1: "index p1 = index p" "buffer p1 = buffer p"
      using newBuilder_parser Inr pb by blast+
    have r3: "r3 \<noteq> Some OutOfFuel"
    proof (cases "buffer p ?K")
      case None
      then show ?thesis using rb ip1 by simp
    next
      case (Some b)
      then have kin: "?K \<in> pending p" using un by (simp add: pending_def)
      then have dpos: "0 < d" using c fin by (metis card_gt_0_iff empty_iff leD not_gr_zero)
      have p2: "pending ?p2 = pending p - {?K}"
        using ip1 by (auto simp: pending_def)
      have "finite (pending ?p2)" "card (pending ?p2) \<le> d - 1"
        using p2 fin c kin by simp_all
      then show ?thesis
        using runBuffer_fuel[OF ih[OF dpos] fs, of ?p2 ?K ?buf] rb by simp
    qed
    show ?thesis
      using setType_w_unresolved[OF un, of ty m p1 bo st p3 r3] Inr pb rb r3
      by (auto split: option.splits)
  qed
qed

lemma okFuel_setType: "okFuel (setType (Suc d)) d"
proof (induction d)
  case 0
  show ?case using setType_w_okFuel[OF frameSt_setType[of 0], of 0] by simp
next
  case (Suc d)
  show ?case using setType_w_okFuel[OF frameSt_setType[of "Suc d"], of "Suc d"] Suc by simp
qed

lemma okFuel_setType_ge:
  assumes "card (pending p) < n" "finite (pending p)" "index p (termStr node) = None"
  shows "snd (setType n p node ty m) \<noteq> Inl OutOfFuel"
proof -
  obtain d where n: "n = Suc d" using assms(1) by (cases n) auto
  have "okFuel (setType (Suc d)) d" by (rule okFuel_setType)
  then show ?thesis using okFuelD assms n by (metis less_Suc_eq_le)
qed

lemma okFuel_le: "d' < n \<Longrightarrow> okFuel (setType n) d'"
  unfolding okFuel_def using okFuel_setType_ge by (metis le_imp_less_Suc less_Suc_eq_le order_le_less_trans)

lemma setType_fuel:
  assumes fin: "finite (pending p)" and c: "card (pending p) + 2 \<le> n"
  shows "snd (setType n p node ty m) \<noteq> Inl OutOfFuel"
proof (cases "index p (termStr node)")
  case None
  then show ?thesis using okFuel_setType_ge[of p n node ty m] fin c by simp
next
  case (Some bo)
  obtain n1 where n: "n = Suc n1" using c by (cases n) auto
  have ok: "okFuel (setType n1) (card (pending p))" using okFuel_le[of "card (pending p)" n1] c n by simp
  have "snd (apply_w (setType n1) p (termStr node) (uri ''ns:type'') ty m) \<noteq> Some OutOfFuel"
    using apply_w_fuel[OF ok fin] by simp
  then show ?thesis using Some n
    by (auto simp: setType_w_def Let_def split: option.splits prod.splits)
qed

lemma processTruple_fuel:
  assumes fin: "finite (pending p)" and c: "card (pending p) + 2 \<le> n"
  shows "snd (processTruple n p stm m) \<noteq> Some OutOfFuel"
proof (cases "Predicate stm = uri_nstype")
  case True
  then show ?thesis using setType_fuel[OF fin c, of "Subject stm" "Object stm" m]
    by (auto simp: processTruple_def split: prod.splits sum.splits)
next
  case False
  have ok: "okFuel (setType n) (card (pending p))" using okFuel_le[of "card (pending p)" n] c by simp
  show ?thesis using False apply_w_fuel[OF ok fin]
    by (auto simp: processTruple_def Let_def apply_b_def split: option.splits)
qed

lemma processTruple_pending:
  assumes pt: "processTruple n p stm m = (p', r)" and fin: "finite (pending p)"
  shows "finite (pending p') \<and> card (pending p') \<le> Suc (card (pending p))"
proof (cases "Predicate stm = uri_nstype")
  case True
  obtain p1 r1 where s: "setType n p (Subject stm) (Object stm) m = (p1, r1)"
    by (cases "setType n p (Subject stm) (Object stm) m")
  then have "p' = p1" using pt True by (auto simp: processTruple_def split: sum.splits)
  then show ?thesis using pending_card_extK[OF setType_extK[OF s] fin] by simp
next
  case False
  show ?thesis
  proof (cases "index p (termStr (Subject stm))")
    case None
    then have "pending p' \<subseteq> insert (termStr (Subject stm)) (pending p)"
      using pt False by (auto simp: processTruple_def Let_def pending_def split: if_splits)
    then have "finite (pending p') \<and> card (pending p') \<le> card (insert (termStr (Subject stm)) (pending p))"
      using fin by (simp add: card_mono finite_subset)
    then show ?thesis using fin by (metis card.insert card_insert_if le_SucI)
  next
    case (Some bo)
    then have "apply_w (setType n) p (termStr (Subject stm)) (Predicate stm) (Object stm) m = (p', r)"
      using pt False by (simp add: processTruple_def Let_def apply_b_def)
    then show ?thesis using pending_card_extK[OF apply_w_extK[OF frameSt_setType] fin] by fastforce
  qed
qed

lemma parseLoop_fuel:
  "finite (pending p) \<Longrightarrow> card (pending p) + length ts + 1 \<le> n \<Longrightarrow>
   snd (parseLoop n p ts) \<noteq> Some OutOfFuel"
proof (induction ts arbitrary: p)
  case Nil
  then show ?case by simp
next
  case (Cons t ts)
  obtain stm line where t: "t = (stm, line)" by (cases t)
  obtain p1 r1 where pt: "processTruple n p stm (Some line) = (p1, r1)"
    by (cases "processTruple n p stm (Some line)")
  have r1: "r1 \<noteq> Some OutOfFuel"
    using processTruple_fuel[OF Cons.prems(1), of n stm "Some line"] Cons.prems(2) pt by simp
  have pp: "finite (pending p1) \<and> card (pending p1) \<le> Suc (card (pending p))"
    using processTruple_pending[OF pt Cons.prems(1)] .
  then have "snd (parseLoop n p1 ts) \<noteq> Some OutOfFuel"
    using Cons.IH[of p1] Cons.prems(2) by simp
  then show ?case using t pt r1 by (cases r1) simp_all
qed

lemma pending_NewParser: "pending NewParser = {}"
  by (simp add: pending_def NewParser_def)

lemma parseLoop_NewParser_fuel:
  "length ts < n \<Longrightarrow> snd (parseLoop n NewParser ts) \<noteq> Some OutOfFuel"
  using parseLoop_fuel[of NewParser ts n] by (simp add: pending_NewParser)

lemma parseLoop_NewParser_more:
  "length ts < n \<Longrightarrow> parseLoop n NewParser ts = parseLoop (Suc (length ts)) NewParser ts"
  using parseLoop_mono[of "Suc (length ts)" n NewParser ts] parseLoop_NewParser_fuel[of ts "Suc (length ts)"]
  by simp

lemma Parse_not_cut_off: "snd (Parse ts) \<noteq> Some OutOfFuel"
  using parseLoop_NewParser_fuel[of ts "Suc (length ts)"]
  by (auto simp: Parse_def split: prod.splits)

section \<open>The buffer of a resolved node\<close>

lemma cleanStD: "cleanSt st \<Longrightarrow> st p node ty m = (p', Inr v) \<Longrightarrow> overlap p' \<subseteq> overlap p"
  unfolding cleanSt_def by blast

lemma overlap_modBuilder: "overlap (modBuilder K f p) = overlap p"
  by (auto simp: overlap_def index_modBuilder buffer_modBuilder split: option.splits if_splits)

lemma overlap_modEntity: "overlap (modEntity K f p) = overlap p"
  by (simp add: modEntity_def overlap_modBuilder)

lemma overlap_setFlag: "overlap (setFlag K prop u p) = overlap p"
  by (simp add: setFlag_def overlap_modBuilder)

lemma reqType_w_clean:
  "cleanSt st \<Longrightarrow> reqType_w st p node ty = (p', Inr v) \<Longrightarrow> overlap p' \<subseteq> overlap p"
  by (auto simp: reqType_w_def split: option.splits if_splits dest: cleanStD)

lemma reqAs_clean:
  "cleanSt st \<Longrightarrow> reqAs st ty g p node = (p', Inr v) \<Longrightarrow> overlap p' \<subseteq> overlap p"
  by (auto simp: reqAs_def split: prod.splits sum.splits option.splits if_splits
      dest: reqType_w_clean)

lemma req_w_clean:
  "cleanSt st \<Longrightarrow> req_w st rq p node = (p', Inr v) \<Longrightarrow> overlap p' \<subseteq> overlap p"
  by (cases rq)
     (auto simp: reqDocument_w_def reqCreationInfo_w_def reqPackage_w_def reqFile_w_def
        reqVerificationCode_w_def reqChecksum_w_def reqReview_w_def
        reqExtractedLicence_w_def reqArtifactOf_w_def dest: reqAs_clean)

lemma reqAnyLicence_w_clean:
  "cleanSt st \<Longrightarrow> reqAnyLicence_w st p node = (p', Inr v) \<Longrightarrow> overlap p' \<subseteq> overlap p"
  by (auto simp: reqAnyLicence_w_def
      split: prod.splits sum.splits option.splits if_splits gotype.splits
      dest: reqType_w_clean)

lemma nsType_clean: "nsType p K obj m = (p', r) \<Longrightarrow> overlap p' = overlap p"
  by (auto simp: nsType_def Let_def overlap_modBuilder split: option.splits if_splits)

lemma runUpdater_clean:
  assumes cs: "cleanSt st" and eq: "runUpdater st p K prop u obj m = (p', None)"
  shows "overlap p' \<subseteq> overlap p"
proof (cases u)
  case (RefAssign rq fld)
  then obtain p1 k where "req_w st rq p obj = (p1, Inr k)" "p' = modEntity K (setPtr fld (Some k)) p1"
    using eq by (auto split: prod.splits sum.splits if_splits)
  then show ?thesis using req_w_clean[OF cs] by (simp add: overlap_modEntity)
next
  case (RefAppend rq fld)
  then obtain p1 k where "req_w st rq p obj = (p1, Inr k)" "p' = modEntity K (appendPtr fld k) p1"
    using eq by (auto split: prod.splits sum.splits if_splits)
  then show ?thesis using req_w_clean[OF cs] by (simp add: overlap_modEntity)
next
  case (LicAssign fld)
  then obtain p1 k where "reqAnyLicence_w st p obj = (p1, Inr k)" "p' = modEntity K (setLic fld (Some k)) p1"
    using eq by (auto split: prod.splits sum.splits if_splits)
  then show ?thesis using reqAnyLicence_w_clean[OF cs] by (simp add: overlap_modEntity)
next
  case (LicAppend fld)
  then obtain p1 k where "reqAnyLicence_w st p obj = (p1, Inr k)" "p' = modEntity K (appendLic fld k) p1"
    using eq by (auto split: prod.splits sum.splits if_splits)
  then show ?thesis using reqAnyLicence_w_clean[OF cs] by (simp add: overlap_modEntity)
next
  case MemberUpd
  then obtain p1 k where "reqAnyLicence_w st p obj = (p1, Inr k)" "p' = modEntity K (Add k) p1"
    using eq by (auto split: prod.splits sum.splits if_splits)
  then show ?thesis using reqAnyLicence_w_clean[OF cs] by (simp add: overlap_modEntity)
next
  case NsTypeUpd
  then show ?thesis using eq nsType_clean by auto
qed (use eq in \<open>auto simp: Let_def overlap_modEntity overlap_setFlag split: if_splits\<close>)

lemma apply_w_clean:
  "cleanSt st \<Longrightarrow> apply_w st p K pred obj m = (p', None) \<Longrightarrow> overlap p' \<subseteq> overlap p"
  by (auto simp: apply_w_def Let_def split: option.splits dest: runUpdater_clean)

lemma runBuffer_clean:
  "cleanSt st \<Longrightarrow> runBuffer st p K buf = (p', None) \<Longrightarrow> overlap p' \<subseteq> overlap p"
proof (induction buf arbitrary: p)
  case Nil
  then show ?case by simp
next
  case (Cons s buf)
  obtain p1 r1 where a: "apply_w st p K (Predicate (Statement s)) (Object (Statement s)) (BMeta s) = (p1, r1)"
    by (cases "apply_w st p K (Predicate (Statement s)) (Object (Statement s)) (BMeta s)")
  then have r1: "r1 = None" and rest: "runBuffer st p1 K buf = (p', None)"
    using Cons.prems(2) by (auto split: option.splits)
  have "overlap p1 \<subseteq> overlap p" using apply_w_clean[OF Cons.prems(1)] a r1 by simp
  moreover have "overlap p' \<subseteq> overlap p1" using Cons.IH[OF Cons.prems(1) rest] .
  ultimately show ?case by blast
qed

lemma setType_w_clean:
  assumes cs: "cleanSt st" and eq: "setType_w st p node ty m = (p', Inr v)"
  shows "overlap p' \<subseteq> overlap p"
proof (cases "index p (termStr node)")
  case None
  show ?thesis
  proof (cases "newBuilder p node ty m")
    case (Inl e)
    then show ?thesis using None eq by (simp add: setType_w_def)
  next
    case (Inr pb)
    obtain p1 bo where pb: "pb = (p1, bo)" by (cases pb)
    let ?K = "termStr node"
    let ?p2 = "p1\<lparr>index := (index p1)(?K \<mapsto> bo)\<rparr>"
    let ?buf = "case buffer p1 ?K of None \<Rightarrow> [] | Some b \<Rightarrow> b"
    obtain p3 r3 where rb: "runBuffer st ?p2 ?K ?buf = (p3, r3)"
      by (cases "runBuffer st ?p2 ?K ?buf")
    have ip1: "index p1 = index p" "buffer p1 = buffer p"
      using newBuilder_parser Inr pb by blast+
    have res: "r3 = None \<and> p' = p3\<lparr>buffer := (buffer p3)(?K := None)\<rparr>"
      using setType_w_unresolved[OF None, of ty m p1 bo st p3 r3] Inr pb rb eq
      by (auto split: option.splits)
    have o2: "overlap ?p2 \<subseteq> insert ?K (overlap p)"
      using ip1 by (auto simp: overlap_def)
    have o3: "overlap p3 \<subseteq> overlap ?p2" using runBuffer_clean[OF cs] rb res by simp
    have "overlap p' \<subseteq> overlap p3 - {?K}" using res by (auto simp: overlap_def)
    then show ?thesis using o2 o3 by blast
  qed
next
  case (Some bo)
  then show ?thesis using eq cs
    by (auto simp: setType_w_def Let_def split: option.splits if_splits prod.splits
        dest: apply_w_clean)
qed

lemma cleanSt_setType: "cleanSt (setType n)"
proof (induction n)
  case 0
  then show ?case by (simp add: cleanSt_def)
next
  case (Suc n)
  show ?case unfolding cleanSt_def
  proof (intro allI impI)
    fix p node ty m p' v
    assume "setType (Suc n) p node ty m = (p', Inr v)"
    then show "overlap p' \<subseteq> overlap p" using setType_w_clean[OF Suc] by simp
  qed
qed

lemma runBuffer_keeps_own_buffer:
  assumes "frameSt st" "runBuffer st p K buf = (p', r)" "index p K \<noteq> None"
  shows "buffer p' K = buffer p K \<and> index p' K \<noteq> None"
  using runBuffer_extK[OF assms(1,2)] assms(3) unfolding extK_def bufShrink_def by metis

section \<open>The claims\<close>


text \<open>
  C3. \<open>processTruple\<close> is a three-way dispatch. With the type predicate it calls
  \<open>setType\<close> on the subject, the object and the location, and returns its error. Otherwise,
  when the key of the subject is in the index, it applies the predicate, the object and
  the location to that builder and returns the builder's error. Otherwise it appends the
  statement with its location to the buffer of the subject, after those already there,
  and returns no error.
\<close>

theorem processTruple_dispatch:
  "(Predicate stm = uri_nstype \<longrightarrow>
      processTruple n p stm m =
        (case setType n p (Subject stm) (Object stm) m of
           (p', Inl e) \<Rightarrow> (p', Some e)
         | (p', Inr v) \<Rightarrow> (p', None)))
   \<and> (Predicate stm \<noteq> uri_nstype \<and> index p (termStr (Subject stm)) = Some (Some b) \<longrightarrow>
      processTruple n p stm m =
        apply_b n p (termStr (Subject stm)) (Predicate stm) (Object stm) m)
   \<and> (Predicate stm \<noteq> uri_nstype \<and> index p (termStr (Subject stm)) = None \<longrightarrow>
      processTruple n p stm m =
        (p\<lparr>buffer := (buffer p)(termStr (Subject stm) \<mapsto>
              (case buffer p (termStr (Subject stm)) of None \<Rightarrow> [] | Some buf \<Rightarrow> buf)
                @ [\<lparr>Statement = stm, BMeta = m\<rparr>])\<rparr>, None))"
  by (simp add: processTruple_def Let_def)

text \<open>
  C9. \<open>setType\<close> with the generic licence type for an unresolved node that is a literal
  builds no builder: it registers the nil builder in the index and then dereferences
  it, in the replay when the node has buffered statements and in the final
  \<open>bldr.ptr\<close> otherwise. The call panics; it returns no error of its own.
\<close>

theorem setType_anyLicence_literal_panics:
  "index p l = None \<Longrightarrow>
   setType (Suc n) p (Literal l) typeAnyLicence m =
     (if (case buffer p l of None \<Rightarrow> [] | Some buf \<Rightarrow> buf) = []
      then p\<lparr>index := (index p)(l \<mapsto> None), buffer := (buffer p)(l := None)\<rparr>
      else p\<lparr>index := (index p)(l \<mapsto> None)\<rparr>,
      Inl Panic)"
proof -
  assume un: "index p l = None"
  have nb: "newBuilder p (Literal l) typeAnyLicence m = Inr (p, None)"
    by (simp add: newBuilder_def type_values)
  show ?thesis
  proof (cases "case buffer p l of None \<Rightarrow> [] | Some buf \<Rightarrow> buf")
    case Nil
    then show ?thesis using un nb by (simp add: setType_w_def)
  next
    case (Cons s ss)
    then show ?thesis using un nb by (simp add: setType_w_def apply_w_def)
  qed
qed

text \<open>
  C5 (as amended). A licence set whose kind is fixed to ConjunctiveLicenseSet, by
  promotion or by direct construction, still has the \<open>ns:type\<close> updater of
  \<open>licenceSetMap\<close> in its table. A later type triple naming DisjunctiveLicenseSet is
  dispatched to that updater, which refuses it with the error "Property already
  defined." at the location of the triple, and leaves the parser as it was.
\<close>

theorem conjunctive_retyped_disjunctive:
  "index p (termStr node) = Some (Some b) \<Longrightarrow> b_t b = typeConjunctiveSet \<Longrightarrow>
   b_updaters b ''ns:type'' = Some NsTypeUpd \<Longrightarrow>
   processTruple (Suc n) p (tr node uri_nstype typeDisjunctiveSet) m =
     (p, Some (ParseError MsgAlreadyDefined m))"
  by (simp add: processTruple_def tr_def setType_w_def has_def apply_w_def
      shortPrefix_nstype nsType_def type_values)


theorem processTruple_dispatch_witness:
  "Predicate (tr (Uri ''D'') uri_nstype typeDocument) = uri_nstype
   \<and> processTruple 1 NewParser (tr (Uri ''D'') uri_nstype typeDocument) (Some 1) =
        (case setType 1 NewParser (Uri ''D'') typeDocument (Some 1) of
           (p', Inl e) \<Rightarrow> (p', Some e)
         | (p', Inr v) \<Rightarrow> (p', None))
   \<and> Predicate (tr (Uri ''D'') (Uri (baseUri @ ''specVersion'')) (Literal ''SPDX-1.2'')) \<noteq> uri_nstype
   \<and> index (fst (setType 1 NewParser (Uri ''D'') typeDocument (Some 1))) ''D''
        = Some (Some (documentMap (newEntity GDocument (Some 1))))
   \<and> processTruple 1 (fst (setType 1 NewParser (Uri ''D'') typeDocument (Some 1)))
        (tr (Uri ''D'') (Uri (baseUri @ ''specVersion'')) (Literal ''SPDX-1.2'')) (Some 2) =
      apply_b 1 (fst (setType 1 NewParser (Uri ''D'') typeDocument (Some 1))) ''D''
        (Uri (baseUri @ ''specVersion'')) (Literal ''SPDX-1.2'') (Some 2)
   \<and> index NewParser ''D'' = None
   \<and> processTruple 1 NewParser
        (tr (Uri ''D'') (Uri (baseUri @ ''specVersion'')) (Literal ''SPDX-1.2'')) (Some 2) =
      (NewParser\<lparr>buffer := (buffer NewParser)(''D'' \<mapsto>
          [\<lparr>Statement = tr (Uri ''D'') (Uri (baseUri @ ''specVersion'')) (Literal ''SPDX-1.2''),
            BMeta = Some 2\<rparr>])\<rparr>, None)"
proof -
  let ?pD = "fst (setType 1 NewParser (Uri ''D'') typeDocument (Some 1))"
  let ?s2 = "tr (Uri ''D'') (Uri (baseUri @ ''specVersion'')) (Literal ''SPDX-1.2'')"
  have nD: "newBuilder NewParser (Uri ''D'') typeDocument (Some 1)
      = Inr (NewParser\<lparr>doc := Some ''D''\<rparr>, Some (documentMap (newEntity GDocument (Some 1))))"
    by (simp add: newBuilder_def type_values)
  have iD: "index ?pD ''D'' = Some (Some (documentMap (newEntity GDocument (Some 1))))"
    using setType_new_nobuffer[OF _ _ nD, of 0] by (simp add: NewParser_def)
  have h2: "Predicate ?s2 \<noteq> uri_nstype"
    by (simp add: tr_def uri_nstype_value baseUri_def)
  have h3: "index NewParser ''D'' = None" by (simp add: NewParser_def)
  show ?thesis
    using processTruple_dispatch[where stm="tr (Uri ''D'') uri_nstype typeDocument" and n=1
          and p=NewParser and m="Some 1"]
      processTruple_dispatch[where stm="?s2" and p="?pD"
          and b="documentMap (newEntity GDocument (Some 1))" and n=1 and m="Some 2"]
      processTruple_dispatch[where stm="?s2" and p=NewParser and n=1 and m="Some 2"]
      iD h2 h3
    by (simp add: tr_def NewParser_def)
qed

theorem setType_anyLicence_literal_panics_witness:
  "index NewParser ''GPL'' = None
   \<and> setType 1 NewParser (Literal ''GPL'') typeAnyLicence None =
       (NewParser\<lparr>index := (index NewParser)(''GPL'' \<mapsto> None),
                  buffer := (buffer NewParser)(''GPL'' := None)\<rparr>, Inl Panic)"
  using setType_anyLicence_literal_panics[of NewParser "''GPL''" 0 None]
  by (simp add: NewParser_def)

theorem conjunctive_retyped_disjunctive_witness:
  "index (fst (setType 1 NewParser (Blank ''s'') typeConjunctiveSet (Some 1))) (termStr (Blank ''s''))
      = Some (Some (conjunctiveSetBuilder (Some 1)))
   \<and> b_t (conjunctiveSetBuilder (Some 1)) = typeConjunctiveSet
   \<and> b_updaters (conjunctiveSetBuilder (Some 1)) ''ns:type'' = Some NsTypeUpd
   \<and> processTruple 1 (fst (setType 1 NewParser (Blank ''s'') typeConjunctiveSet (Some 1)))
        (tr (Blank ''s'') uri_nstype typeDisjunctiveSet) (Some 2) =
       (fst (setType 1 NewParser (Blank ''s'') typeConjunctiveSet (Some 1)),
        Some (ParseError MsgAlreadyDefined (Some 2)))"
proof -
  let ?p = "fst (setType 1 NewParser (Blank ''s'') typeConjunctiveSet (Some 1))"
  have nb: "newBuilder NewParser (Blank ''s'') typeConjunctiveSet (Some 1)
      = Inr (NewParser, Some (conjunctiveSetBuilder (Some 1)))"
    by (simp add: newBuilder_def type_values)
  have i: "index ?p (termStr (Blank ''s'')) = Some (Some (conjunctiveSetBuilder (Some 1)))"
    using setType_new_nobuffer[OF _ _ nb, of 0] by (simp add: NewParser_def)
  have b: "b_t (conjunctiveSetBuilder (Some 1)) = typeConjunctiveSet"
    "b_updaters (conjunctiveSetBuilder (Some 1)) ''ns:type'' = Some NsTypeUpd"
    by (simp_all add: conjunctiveSetBuilder_def licenceSetMap_def)
  show ?thesis
    using conjunctive_retyped_disjunctive[OF i b, of 0 "Some 2"] i b by simp
qed

theorem conjunctive_retyped_counterexample:
  "snd (Parse [(tr (Blank ''s'') uri_nstype typeConjunctiveSet, 1),
               (tr (Blank ''s'') uri_nstype typeDisjunctiveSet, 2)])
     = Some (ParseError MsgAlreadyDefined (Some 2))
   \<and> snd (Parse [(tr (Blank ''s'') uri_nstype typeAbstractLicenceSet, 1),
               (tr (Blank ''s'') uri_nstype typeConjunctiveSet, 2),
               (tr (Blank ''s'') uri_nstype typeDisjunctiveSet, 3)])
     = Some (ParseError MsgAlreadyDefined (Some 3))"
  by code_simp

text \<open>
  C1. An abstract licence set keeps the members that the \<open>member\<close> writes gave it, in
  their order. A type triple naming DisjunctiveLicenseSet replaces, in the builder
  registered under the node's key, the kind by the disjunctive kind and the entity by a
  DisjunctiveLicenceSet with exactly these members in this order; nothing else in the
  parser changes, and the table of the builder stays. A \<open>member\<close> write to a builder
  (abstract or promoted) whose object resolves to a licence appends this licence to the
  members of the entity the builder holds at that moment, so after the promotion to
  the promoted entity.
\<close>

theorem licence_set_promotion:
  "(index p (termStr node) = Some (Some b) \<and> b_t b = typeAbstractLicenceSet \<and>
    go_type (b_ptr b) = GLicenceSet \<and> b_updaters b ''ns:type'' = Some NsTypeUpd \<longrightarrow>
      processTruple (Suc n) p (tr node uri_nstype typeDisjunctiveSet) m =
        (p\<lparr>index := (index p)(termStr node \<mapsto> Some (b\<lparr>b_t := typeDisjunctiveSet,
              b_ptr := NewDisjunctiveSet (case EMeta (b_ptr b) of None \<Rightarrow> m | Some x \<Rightarrow> Some x)
                         (Members (b_ptr b))\<rparr>))\<rparr>, None)
      \<and> go_type (NewDisjunctiveSet (case EMeta (b_ptr b) of None \<Rightarrow> m | Some x \<Rightarrow> Some x)
                         (Members (b_ptr b))) = GDisjunctiveLicenceSet
      \<and> Members (NewDisjunctiveSet (case EMeta (b_ptr b) of None \<Rightarrow> m | Some x \<Rightarrow> Some x)
                         (Members (b_ptr b))) = Members (b_ptr b))
   \<and> (index q K = Some (Some b') \<and> b_updaters b' (shortPrefix pred) = Some MemberUpd \<and>
      reqAnyLicence n' q obj = (q', Inr lic) \<longrightarrow>
      apply_b n' q K pred obj m' =
        (q'\<lparr>index := (index q')(K \<mapsto> Some (b'\<lparr>b_ptr := Add lic (b_ptr b')\<rparr>))\<rparr>, None)
      \<and> Members (Add lic (b_ptr b')) = Members (b_ptr b') @ [lic]
      \<and> go_type (Add lic (b_ptr b')) = go_type (b_ptr b'))"
proof (intro conjI impI)
  assume a: "index p (termStr node) = Some (Some b) \<and> b_t b = typeAbstractLicenceSet \<and>
    go_type (b_ptr b) = GLicenceSet \<and> b_updaters b ''ns:type'' = Some NsTypeUpd"
  then show "processTruple (Suc n) p (tr node uri_nstype typeDisjunctiveSet) m =
        (p\<lparr>index := (index p)(termStr node \<mapsto> Some (b\<lparr>b_t := typeDisjunctiveSet,
              b_ptr := NewDisjunctiveSet (case EMeta (b_ptr b) of None \<Rightarrow> m | Some x \<Rightarrow> Some x)
                         (Members (b_ptr b))\<rparr>))\<rparr>, None)"
    by (simp add: processTruple_def tr_def setType_w_def has_def apply_w_def
        shortPrefix_nstype nsType_def type_values modBuilder_def Let_def)
next
  assume a: "index q K = Some (Some b') \<and> b_updaters b' (shortPrefix pred) = Some MemberUpd \<and>
      reqAnyLicence n' q obj = (q', Inr lic)"
  then have fr: "index q' K = Some (Some b')"
    using reqAnyLicence_frame[of n' q obj q' "Inr lic" K] by simp
  show "apply_b n' q K pred obj m' =
        (q'\<lparr>index := (index q')(K \<mapsto> Some (b'\<lparr>b_ptr := Add lic (b_ptr b')\<rparr>))\<rparr>, None)"
    using a fr
    by (simp add: apply_b_def apply_w_def Let_def reqAnyLicence_def modEntity_def modBuilder_def)
qed (simp_all add: NewDisjunctiveSet_def newEntity_def Add_def)

text \<open>
  C8. The claim fails on the code. A package node typed at line 1, a document typed at
  line 2 and, at line 3, the document's \<open>creationInfo\<close> pointing to the package:
  \<open>reqType\<close> finds the node resolved to an incompatible kind and returns a plain
  \<open>fmt.Errorf\<close> error, which names the node and the two kinds but carries no location.
\<close>

theorem reqType_error_without_location:
  "snd (Parse [(tr (Uri ''P'') uri_nstype typePackage, 1),
               (tr (Uri ''D'') uri_nstype typeDocument, 2),
               (tr (Uri ''D'') (Uri (baseUri @ ''creationInfo'')) (Uri ''P''), 3)])
     = Some (Errorf (MsgIncompatibleTypes (ArgTerm (Uri ''P'')) typePackage typeCreationInfo))"
  by code_simp

theorem licence_set_promotion_witness:
  "index (fst (setType 1 NewParser (Blank ''set1'') typeAnyLicence (Some 1))) (termStr (Blank ''set1''))
      = Some (Some (licenceSetMap (newEntity GLicenceSet (Some 1))))
   \<and> b_t (licenceSetMap (newEntity GLicenceSet (Some 1))) = typeAbstractLicenceSet
   \<and> go_type (b_ptr (licenceSetMap (newEntity GLicenceSet (Some 1)))) = GLicenceSet
   \<and> b_updaters (licenceSetMap (newEntity GLicenceSet (Some 1))) ''ns:type'' = Some NsTypeUpd
   \<and> processTruple 1 (fst (setType 1 NewParser (Blank ''set1'') typeAnyLicence (Some 1)))
        (tr (Blank ''set1'') uri_nstype typeDisjunctiveSet) (Some 4) =
      ((fst (setType 1 NewParser (Blank ''set1'') typeAnyLicence (Some 1)))\<lparr>index :=
          (index (fst (setType 1 NewParser (Blank ''set1'') typeAnyLicence (Some 1))))
          (termStr (Blank ''set1'') \<mapsto> Some ((licenceSetMap (newEntity GLicenceSet (Some 1)))\<lparr>
              b_t := typeDisjunctiveSet,
              b_ptr := NewDisjunctiveSet (Some 1)
                 (Members (b_ptr (licenceSetMap (newEntity GLicenceSet (Some 1)))))\<rparr>))\<rparr>, None)
   \<and> b_updaters (licenceSetMap (newEntity GLicenceSet (Some 1)))
        (shortPrefix (Uri (baseUri @ ''member''))) = Some MemberUpd
   \<and> reqAnyLicence 1 (fst (setType 1 NewParser (Blank ''set1'') typeAnyLicence (Some 1)))
        (Uri (licenceUri @ ''MIT''))
      = (fst (reqAnyLicence 1 (fst (setType 1 NewParser (Blank ''set1'') typeAnyLicence (Some 1)))
               (Uri (licenceUri @ ''MIT''))),
         Inr (LicenceV \<lparr>Val = ''MIT'', Meta = None\<rparr>))
   \<and> apply_b 1 (fst (setType 1 NewParser (Blank ''set1'') typeAnyLicence (Some 1))) ''set1''
        (Uri (baseUri @ ''member'')) (Uri (licenceUri @ ''MIT'')) (Some 2) =
      ((fst (reqAnyLicence 1 (fst (setType 1 NewParser (Blank ''set1'') typeAnyLicence (Some 1)))
               (Uri (licenceUri @ ''MIT''))))\<lparr>index :=
          (index (fst (reqAnyLicence 1
               (fst (setType 1 NewParser (Blank ''set1'') typeAnyLicence (Some 1)))
               (Uri (licenceUri @ ''MIT'')))))
          (''set1'' \<mapsto> Some ((licenceSetMap (newEntity GLicenceSet (Some 1)))\<lparr>
              b_ptr := Add (LicenceV \<lparr>Val = ''MIT'', Meta = None\<rparr>)
                 (b_ptr (licenceSetMap (newEntity GLicenceSet (Some 1))))\<rparr>))\<rparr>, None)
   \<and> snd (Parse [(tr (Blank ''set1'') uri_nstype typeAnyLicence, 1),
         (tr (Blank ''set1'') (Uri (baseUri @ ''member'')) (Uri (licenceUri @ ''MIT'')), 2),
         (tr (Blank ''set1'') (Uri (baseUri @ ''member'')) (Uri (licenceUri @ ''GPL-2.0'')), 3),
         (tr (Blank ''set1'') uri_nstype typeDisjunctiveSet, 4),
         (tr (Blank ''set1'') (Uri (baseUri @ ''member'')) (Uri (licenceUri @ ''BSD'')), 5)]) = None
   \<and> map_option (\<lambda>e. (go_type e, Members e))
       (snd (fst (Parse [(tr (Blank ''set1'') uri_nstype typeAnyLicence, 1),
         (tr (Blank ''set1'') (Uri (baseUri @ ''member'')) (Uri (licenceUri @ ''MIT'')), 2),
         (tr (Blank ''set1'') (Uri (baseUri @ ''member'')) (Uri (licenceUri @ ''GPL-2.0'')), 3),
         (tr (Blank ''set1'') uri_nstype typeDisjunctiveSet, 4),
         (tr (Blank ''set1'') (Uri (baseUri @ ''member'')) (Uri (licenceUri @ ''BSD'')), 5)])) ''set1'')
      = Some (GDisjunctiveLicenceSet,
              [LicenceV \<lparr>Val = ''MIT'', Meta = None\<rparr>, LicenceV \<lparr>Val = ''GPL-2.0'', Meta = None\<rparr>,
               LicenceV \<lparr>Val = ''BSD'', Meta = None\<rparr>])"
proof -
  let ?p = "fst (setType 1 NewParser (Blank ''set1'') typeAnyLicence (Some 1))"
  let ?b = "licenceSetMap (newEntity GLicenceSet (Some 1))"
  let ?obj = "Uri (licenceUri @ ''MIT'')"
  let ?lic = "LicenceV \<lparr>Val = ''MIT'', Meta = None\<rparr>"
  have nb: "newBuilder NewParser (Blank ''set1'') typeAnyLicence (Some 1) = Inr (NewParser, Some ?b)"
    by (simp add: newBuilder_def type_values HasPrefix_def ToLower_def lowerChar_def)
  have i: "index ?p (termStr (Blank ''set1'')) = Some (Some ?b)"
    using setType_new_nobuffer[OF _ _ nb, of 0] by (simp add: NewParser_def)
  have b: "b_t ?b = typeAbstractLicenceSet" "go_type (b_ptr ?b) = GLicenceSet"
    "b_updaters ?b ''ns:type'' = Some NsTypeUpd"
    "b_updaters ?b (shortPrefix (Uri (baseUri @ ''member''))) = Some MemberUpd"
    "EMeta (b_ptr ?b) = Some 1"
    by (simp_all add: licenceSetMap_def newEntity_def shortPrefix_baseUri)
  have r: "snd (reqAnyLicence 1 ?p ?obj) = Inr ?lic" by code_simp
  then have r': "reqAnyLicence 1 ?p ?obj = (fst (reqAnyLicence 1 ?p ?obj), Inr ?lic)"
    by (metis prod.collapse)
  have sc1: "snd (Parse [(tr (Blank ''set1'') uri_nstype typeAnyLicence, 1),
         (tr (Blank ''set1'') (Uri (baseUri @ ''member'')) (Uri (licenceUri @ ''MIT'')), 2),
         (tr (Blank ''set1'') (Uri (baseUri @ ''member'')) (Uri (licenceUri @ ''GPL-2.0'')), 3),
         (tr (Blank ''set1'') uri_nstype typeDisjunctiveSet, 4),
         (tr (Blank ''set1'') (Uri (baseUri @ ''member'')) (Uri (licenceUri @ ''BSD'')), 5)]) = None"
    by code_simp
  have sc2: "map_option (\<lambda>e. (go_type e, Members e))
       (snd (fst (Parse [(tr (Blank ''set1'') uri_nstype typeAnyLicence, 1),
         (tr (Blank ''set1'') (Uri (baseUri @ ''member'')) (Uri (licenceUri @ ''MIT'')), 2),
         (tr (Blank ''set1'') (Uri (baseUri @ ''member'')) (Uri (licenceUri @ ''GPL-2.0'')), 3),
         (tr (Blank ''set1'') uri_nstype typeDisjunctiveSet, 4),
         (tr (Blank ''set1'') (Uri (baseUri @ ''member'')) (Uri (licenceUri @ ''BSD'')), 5)])) ''set1'')
      = Some (GDisjunctiveLicenceSet,
              [LicenceV \<lparr>Val = ''MIT'', Meta = None\<rparr>, LicenceV \<lparr>Val = ''GPL-2.0'', Meta = None\<rparr>,
               LicenceV \<lparr>Val = ''BSD'', Meta = None\<rparr>])"
    by code_simp
  have i': "index ?p ''set1'' = Some (Some ?b)" using i by simp
  show ?thesis
    using licence_set_promotion[where p="?p" and node="Blank ''set1''" and b="?b" and n=0
        and m="Some 4" and q="?p" and K="''set1''" and b'="?b"
        and pred="Uri (baseUri @ ''member'')" and obj="?obj"
        and q'="fst (reqAnyLicence 1 ?p ?obj)" and lic="?lic" and m'="Some 2" and n'=1]
      i i' b r' sc1 sc2
    by simp
qed

text \<open>
  C6 (as amended). Of the single-valued properties, those that hold a text are written
  once and those that hold a reference are overwritten. A single-valued text property is
  one whose updater is \<open>upd\<close>, \<open>updCutPrefix\<close>, \<open>updCreator\<close>, \<open>updDate\<close> or the
  \<open>algorithm\<close> closure. The first write to it (the flag of its updater is down) succeeds,
  stores the value with the location of the triple and raises the flag. Any write after
  that, with the same or with another value, returns the error "Property already
  defined." at the location of the rejected triple and changes nothing: the stored value
  and its location stay as the first write left them. A write that finds the flag raised
  fails in the same way. A single-valued reference (\<open>creationInfo\<close>,
  \<open>packageVerificationCode\<close>, \<open>checksum\<close>, and the licences \<open>licenseConcluded\<close> and
  \<open>licenseDeclared\<close>) has no flag: every write whose object resolves to the required
  kind succeeds, whatever the field holds, and assigns the field, so that a second write
  replaces what the first one stored; the table of the builder stays as it was.
\<close>

theorem single_valued_written_once:
  "index p K = Some (Some b) \<Longrightarrow> b_updaters b (shortPrefix pred) = Some u \<Longrightarrow>
   (\<forall>fld g. scalarRule u = Some (fld, g) \<longrightarrow>
      (\<not> isSet u \<longrightarrow>
         (let p1 = p\<lparr>index := (index p)(K \<mapsto> Some (b\<lparr>
                      b_ptr := setStr fld \<lparr>Val = g (termStr obj), Meta = m\<rparr> (b_ptr b),
                      b_updaters := (b_updaters b)(shortPrefix pred \<mapsto> markSet u)\<rparr>))\<rparr>
          in apply_b n p K pred obj m = (p1, None) \<and>
             (\<forall>n' pred' obj' m'. shortPrefix pred' = shortPrefix pred \<longrightarrow>
                apply_b n' p1 K pred' obj' m' = (p1, Some (ParseError MsgAlreadyDefined m')))))
      \<and> (isSet u \<longrightarrow> apply_b n p K pred obj m = (p, Some (ParseError MsgAlreadyDefined m))))
   \<and> (\<forall>rq fld p' k. u = RefAssign rq fld \<longrightarrow> req_w (setType n) rq p obj = (p', Inr k) \<longrightarrow>
        k = termStr obj \<and>
        apply_b n p K pred obj m =
          (p'\<lparr>index := (index p')(K \<mapsto> Some (b\<lparr>b_ptr := setPtr fld (Some k) (b_ptr b)\<rparr>))\<rparr>,
           None) \<and>
        ptrF (setPtr fld (Some k) (b_ptr b)) fld = Some k)
   \<and> (\<forall>fld p' lic. u = LicAssign fld \<longrightarrow> reqAnyLicence n p obj = (p', Inr lic) \<longrightarrow>
        apply_b n p K pred obj m =
          (p'\<lparr>index := (index p')(K \<mapsto> Some (b\<lparr>b_ptr := setLic fld (Some lic) (b_ptr b)\<rparr>))\<rparr>,
           None) \<and>
        licF (setLic fld (Some lic) (b_ptr b)) fld = Some lic)"
proof (intro conjI allI impI)
  fix fld g
  assume i: "index p K = Some (Some b)" and u: "b_updaters b (shortPrefix pred) = Some u"
    and s: "scalarRule u = Some (fld, g)"
  {
    assume "isSet u"
    then show "apply_b n p K pred obj m = (p, Some (ParseError MsgAlreadyDefined m))"
      using i u runUpdater_scalar_again[OF s]
      by (simp add: apply_b_def apply_w_def Let_def)
  }
  {
    assume ns: "\<not> isSet u"
    have first: "apply_b n p K pred obj m =
        (p\<lparr>index := (index p)(K \<mapsto> Some (b\<lparr>
                     b_ptr := setStr fld \<lparr>Val = g (termStr obj), Meta = m\<rparr> (b_ptr b),
                     b_updaters := (b_updaters b)(shortPrefix pred \<mapsto> markSet u)\<rparr>))\<rparr>, None)"
      using i u ns runUpdater_scalar_first[OF i s]
      by (simp add: apply_b_def apply_w_def Let_def)
    have second: "apply_b n' (p\<lparr>index := (index p)(K \<mapsto> Some (b\<lparr>
                     b_ptr := setStr fld \<lparr>Val = g (termStr obj), Meta = m\<rparr> (b_ptr b),
                     b_updaters := (b_updaters b)(shortPrefix pred \<mapsto> markSet u)\<rparr>))\<rparr>) K pred' obj' m'
        = (p\<lparr>index := (index p)(K \<mapsto> Some (b\<lparr>
                     b_ptr := setStr fld \<lparr>Val = g (termStr obj), Meta = m\<rparr> (b_ptr b),
                     b_updaters := (b_updaters b)(shortPrefix pred \<mapsto> markSet u)\<rparr>))\<rparr>,
           Some (ParseError MsgAlreadyDefined m'))"
      if "shortPrefix pred' = shortPrefix pred" for n' pred' obj' m'
      using that runUpdater_scalar_again[of "markSet u" fld g] s isSet_markSet[OF s]
      by (simp add: apply_b_def apply_w_def Let_def scalarRule_markSet)
    show "let p1 = p\<lparr>index := (index p)(K \<mapsto> Some (b\<lparr>
                      b_ptr := setStr fld \<lparr>Val = g (termStr obj), Meta = m\<rparr> (b_ptr b),
                      b_updaters := (b_updaters b)(shortPrefix pred \<mapsto> markSet u)\<rparr>))\<rparr>
          in apply_b n p K pred obj m = (p1, None) \<and>
             (\<forall>n' pred' obj' m'. shortPrefix pred' = shortPrefix pred \<longrightarrow>
                apply_b n' p1 K pred' obj' m' = (p1, Some (ParseError MsgAlreadyDefined m')))"
      using first second by (simp add: Let_def)
  }
next
  fix rq fld p' k
  assume i: "index p K = Some (Some b)" and u: "b_updaters b (shortPrefix pred) = Some u"
    and r: "u = RefAssign rq fld" and q: "req_w (setType n) rq p obj = (p', Inr k)"
  show "k = termStr obj" using req_key[OF q] .
  show "apply_b n p K pred obj m =
          (p'\<lparr>index := (index p')(K \<mapsto> Some (b\<lparr>b_ptr := setPtr fld (Some k) (b_ptr b)\<rparr>))\<rparr>,
           None)"
    using i u r runUpdater_RefAssign[OF q i]
    by (simp add: apply_b_def apply_w_def Let_def)
  show "ptrF (setPtr fld (Some k) (b_ptr b)) fld = Some k" by (simp add: setPtr_def)
next
  fix fld p' lic
  assume i: "index p K = Some (Some b)" and u: "b_updaters b (shortPrefix pred) = Some u"
    and r: "u = LicAssign fld" and q: "reqAnyLicence n p obj = (p', Inr lic)"
  show "apply_b n p K pred obj m =
          (p'\<lparr>index := (index p')(K \<mapsto> Some (b\<lparr>b_ptr := setLic fld (Some lic) (b_ptr b)\<rparr>))\<rparr>,
           None)"
    using i u r runUpdater_LicAssign[OF q i]
    by (simp add: apply_b_def apply_w_def Let_def)
  show "licF (setLic fld (Some lic) (b_ptr b)) fld = Some lic" by (simp add: setLic_def)
qed

theorem single_valued_written_once_witness:
  "let p0 = fst (setType 1 NewParser (Uri ''P'') typePackage (Some 1));
       b = packageMap (newEntity GPackage (Some 1));
       name = Uri (baseUri @ ''name'');
       checksum = Uri (baseUri @ ''checksum'');
       concluded = Uri (baseUri @ ''licenseConcluded'');
       mit = Uri (licenceUri @ ''MIT'');
       pn = p0\<lparr>index := (index p0)(''P'' \<mapsto> Some (b\<lparr>
              b_ptr := setStr F_Name \<lparr>Val = ''libfoo'', Meta = Some 2\<rparr> (b_ptr b),
              b_updaters := (b_updaters b)(''name'' \<mapsto> Upd F_Name True)\<rparr>))\<rparr>;
       p1 = fst (req_w (setType 1) ReqChecksum p0 (Uri ''C1''));
       b1 = b\<lparr>b_ptr := setPtr F_Checksum (Some ''C1'') (b_ptr b)\<rparr>;
       q = p1\<lparr>index := (index p1)(''P'' \<mapsto> Some b1)\<rparr>;
       q1 = fst (req_w (setType 1) ReqChecksum q (Uri ''C2''));
       l1 = fst (reqAnyLicence 1 p0 mit)
   in index p0 ''P'' = Some (Some b)
    \<and> b_updaters b (shortPrefix name) = Some (Upd F_Name False)
    \<and> scalarRule (Upd F_Name False) = Some (F_Name, \<lambda>v. v)
    \<and> \<not> isSet (Upd F_Name False)
    \<and> apply_b 1 p0 ''P'' name (Literal ''libfoo'') (Some 2) = (pn, None)
    \<and> apply_b 1 pn ''P'' name (Literal ''libfoo'') (Some 3)
        = (pn, Some (ParseError MsgAlreadyDefined (Some 3)))
    \<and> b_updaters b (shortPrefix checksum) = Some (RefAssign ReqChecksum F_Checksum)
    \<and> req_w (setType 1) ReqChecksum p0 (Uri ''C1'') = (p1, Inr ''C1'')
    \<and> apply_b 1 p0 ''P'' checksum (Uri ''C1'') (Some 2) = (q, None)
    \<and> index q ''P'' = Some (Some b1)
    \<and> b_updaters b1 (shortPrefix checksum) = Some (RefAssign ReqChecksum F_Checksum)
    \<and> ptrF (b_ptr b1) F_Checksum = Some ''C1''
    \<and> req_w (setType 1) ReqChecksum q (Uri ''C2'') = (q1, Inr ''C2'')
    \<and> apply_b 1 q ''P'' checksum (Uri ''C2'') (Some 3)
        = (q1\<lparr>index := (index q1)(''P'' \<mapsto>
              Some (b1\<lparr>b_ptr := setPtr F_Checksum (Some ''C2'') (b_ptr b1)\<rparr>))\<rparr>, None)
    \<and> ptrF (setPtr F_Checksum (Some ''C2'') (b_ptr b1)) F_Checksum = Some ''C2''
    \<and> b_updaters b (shortPrefix concluded) = Some (LicAssign F_LicenceConcluded)
    \<and> reqAnyLicence 1 p0 mit = (l1, Inr (LicenceV \<lparr>Val = ''MIT'', Meta = None\<rparr>))
    \<and> apply_b 1 p0 ''P'' concluded mit (Some 2)
        = (l1\<lparr>index := (index l1)(''P'' \<mapsto> Some (b\<lparr>b_ptr :=
              setLic F_LicenceConcluded (Some (LicenceV \<lparr>Val = ''MIT'', Meta = None\<rparr>))
                (b_ptr b)\<rparr>))\<rparr>, None)"
proof -
  let ?p0 = "fst (setType 1 NewParser (Uri ''P'') typePackage (Some 1))"
  let ?b = "packageMap (newEntity GPackage (Some 1))"
  let ?name = "Uri (baseUri @ ''name'')"
  let ?checksum = "Uri (baseUri @ ''checksum'')"
  let ?concluded = "Uri (baseUri @ ''licenseConcluded'')"
  let ?mit = "Uri (licenceUri @ ''MIT'')"
  let ?lic = "LicenceV \<lparr>Val = ''MIT'', Meta = None\<rparr>"
  let ?p1 = "fst (req_w (setType 1) ReqChecksum ?p0 (Uri ''C1''))"
  let ?b1 = "?b\<lparr>b_ptr := setPtr F_Checksum (Some ''C1'') (b_ptr ?b)\<rparr>"
  let ?q = "?p1\<lparr>index := (index ?p1)(''P'' \<mapsto> Some ?b1)\<rparr>"
  let ?q1 = "fst (req_w (setType 1) ReqChecksum ?q (Uri ''C2''))"
  let ?l1 = "fst (reqAnyLicence 1 ?p0 ?mit)"
  have nP: "newBuilder NewParser (Uri ''P'') typePackage (Some 1) = Inr (NewParser, Some ?b)"
    by (simp add: newBuilder_def type_values)
  have i: "index ?p0 ''P'' = Some (Some ?b)"
    using setType_new_nobuffer[OF _ _ nP, of 0] by (simp add: NewParser_def)
  have un: "b_updaters ?b (shortPrefix ?name) = Some (Upd F_Name False)"
    by (simp add: shortPrefix_baseUri packageMap_def)
  have uc: "b_updaters ?b (shortPrefix ?checksum) = Some (RefAssign ReqChecksum F_Checksum)"
    by (simp add: shortPrefix_baseUri packageMap_def)
  have ul: "b_updaters ?b (shortPrefix ?concluded) = Some (LicAssign F_LicenceConcluded)"
    by (simp add: shortPrefix_licenseConcluded packageMap_def)
  have s: "scalarRule (Upd F_Name False) = Some (F_Name, \<lambda>v. v)" by simp
  have "snd (req_w (setType 1) ReqChecksum ?p0 (Uri ''C1'')) = Inr ''C1''" by code_simp
  then have r1: "req_w (setType 1) ReqChecksum ?p0 (Uri ''C1'') = (?p1, Inr ''C1'')"
    by (metis prod.collapse)
  have iq: "index ?q ''P'' = Some (Some ?b1)" by simp
  have uq: "b_updaters ?b1 (shortPrefix ?checksum) = Some (RefAssign ReqChecksum F_Checksum)"
    using uc by simp
  have "snd (req_w (setType 1) ReqChecksum ?q (Uri ''C2'')) = Inr ''C2''" by code_simp
  then have r2: "req_w (setType 1) ReqChecksum ?q (Uri ''C2'') = (?q1, Inr ''C2'')"
    by (metis prod.collapse)
  have "snd (reqAnyLicence 1 ?p0 ?mit) = Inr ?lic" by code_simp
  then have r3: "reqAnyLicence 1 ?p0 ?mit = (?l1, Inr ?lic)"
    by (metis prod.collapse)
  have w1: "apply_b 1 ?p0 ''P'' ?name (Literal ''libfoo'') (Some 2) =
      (?p0\<lparr>index := (index ?p0)(''P'' \<mapsto> Some (?b\<lparr>
              b_ptr := setStr F_Name \<lparr>Val = ''libfoo'', Meta = Some 2\<rparr> (b_ptr ?b),
              b_updaters := (b_updaters ?b)(''name'' \<mapsto> Upd F_Name True)\<rparr>))\<rparr>, None)
     \<and> apply_b 1 (?p0\<lparr>index := (index ?p0)(''P'' \<mapsto> Some (?b\<lparr>
              b_ptr := setStr F_Name \<lparr>Val = ''libfoo'', Meta = Some 2\<rparr> (b_ptr ?b),
              b_updaters := (b_updaters ?b)(''name'' \<mapsto> Upd F_Name True)\<rparr>))\<rparr>)
          ''P'' ?name (Literal ''libfoo'') (Some 3) =
      (?p0\<lparr>index := (index ?p0)(''P'' \<mapsto> Some (?b\<lparr>
              b_ptr := setStr F_Name \<lparr>Val = ''libfoo'', Meta = Some 2\<rparr> (b_ptr ?b),
              b_updaters := (b_updaters ?b)(''name'' \<mapsto> Upd F_Name True)\<rparr>))\<rparr>,
       Some (ParseError MsgAlreadyDefined (Some 3)))"
    using single_valued_written_once[OF i un, where obj="Literal ''libfoo''" and m="Some 2" and n=1]
    by (simp add: Let_def shortPrefix_baseUri)
  have w2: "apply_b 1 ?p0 ''P'' ?checksum (Uri ''C1'') (Some 2) = (?q, None)"
    using single_valued_written_once[OF i uc, where obj="Uri ''C1''" and m="Some 2" and n=1] r1
    by simp
  have w3: "apply_b 1 ?q ''P'' ?checksum (Uri ''C2'') (Some 3)
        = (?q1\<lparr>index := (index ?q1)(''P'' \<mapsto>
              Some (?b1\<lparr>b_ptr := setPtr F_Checksum (Some ''C2'') (b_ptr ?b1)\<rparr>))\<rparr>, None)"
    using single_valued_written_once[OF iq uq, where obj="Uri ''C2''" and m="Some 3" and n=1] r2
    by simp
  have w4: "apply_b 1 ?p0 ''P'' ?concluded ?mit (Some 2)
        = (?l1\<lparr>index := (index ?l1)(''P'' \<mapsto> Some (?b\<lparr>b_ptr :=
              setLic F_LicenceConcluded (Some ?lic) (b_ptr ?b)\<rparr>))\<rparr>, None)"
    using single_valued_written_once[OF i ul, where obj="?mit" and m="Some 2" and n=1] r3
    by simp
  show ?thesis
    unfolding Let_def
    using i un uc ul r1 r2 r3 iq uq w1 w2 w3 w4
    by (simp add: setPtr_def)
qed

text \<open>
  The claim as first worded, for every single-valued property, fails on the references.
  A package whose \<open>checksum\<close> is written twice, a document whose \<open>creationInfo\<close> is
  written twice and a package whose \<open>licenseConcluded\<close> is written twice: each parse
  returns no error, and the field holds what the second write gave.
\<close>

theorem single_valued_reference_counterexample:
  "snd (Parse [(tr (Uri ''P'') uri_nstype typePackage, 1),
               (tr (Uri ''P'') (Uri (baseUri @ ''checksum'')) (Uri ''C1''), 2),
               (tr (Uri ''P'') (Uri (baseUri @ ''checksum'')) (Uri ''C2''), 3)]) = None
   \<and> map_option (\<lambda>e. ptrF e F_Checksum)
       (snd (fst (Parse [(tr (Uri ''P'') uri_nstype typePackage, 1),
               (tr (Uri ''P'') (Uri (baseUri @ ''checksum'')) (Uri ''C1''), 2),
               (tr (Uri ''P'') (Uri (baseUri @ ''checksum'')) (Uri ''C2''), 3)])) ''P'')
     = Some (Some ''C2'')
   \<and> snd (Parse [(tr (Uri ''D'') uri_nstype typeDocument, 1),
               (tr (Uri ''D'') (Uri (baseUri @ ''creationInfo'')) (Uri ''I1''), 2),
               (tr (Uri ''D'') (Uri (baseUri @ ''creationInfo'')) (Uri ''I2''), 3)]) = None
   \<and> map_option (\<lambda>e. ptrF e F_CreationInfo)
       (snd (fst (Parse [(tr (Uri ''D'') uri_nstype typeDocument, 1),
               (tr (Uri ''D'') (Uri (baseUri @ ''creationInfo'')) (Uri ''I1''), 2),
               (tr (Uri ''D'') (Uri (baseUri @ ''creationInfo'')) (Uri ''I2''), 3)])) ''D'')
     = Some (Some ''I2'')
   \<and> snd (Parse [(tr (Uri ''P'') uri_nstype typePackage, 1),
               (tr (Uri ''P'') (Uri (baseUri @ ''licenseConcluded'')) (Uri (licenceUri @ ''MIT'')), 2),
               (tr (Uri ''P'') (Uri (baseUri @ ''licenseConcluded'')) (Uri (licenceUri @ ''BSD'')), 3)])
     = None
   \<and> map_option (\<lambda>e. licF e F_LicenceConcluded)
       (snd (fst (Parse [(tr (Uri ''P'') uri_nstype typePackage, 1),
               (tr (Uri ''P'') (Uri (baseUri @ ''licenseConcluded'')) (Uri (licenceUri @ ''MIT'')), 2),
               (tr (Uri ''P'') (Uri (baseUri @ ''licenseConcluded'')) (Uri (licenceUri @ ''BSD'')), 3)]))
          ''P'')
     = Some (Some (LicenceV \<lparr>Val = ''BSD'', Meta = None\<rparr>))"
  by code_simp

text \<open>
  C4 (as amended). When \<open>setType\<close> constructs a builder for an unresolved key, it
  registers the builder in the index and then replays the buffered statements of the
  key through the builder's dispatch, first in first out, and stops at the first
  failure, which it returns. When the replay succeeds, the buffer entry of the key is
  deleted afterwards; when it fails, the call returns before the deletion and the entry
  stays beside the builder. The buffer of a key is in the order of arrival: a statement
  for an unresolved key is put at its end. So a call of \<open>setType\<close> that succeeds adds no key with both
  a builder in the index and an entry in the buffer: from a parser where no key has
  both, it leads to a parser where no key has both.
\<close>

theorem setType_registers_replays_deletes:
  "(index p (termStr node) = None \<and> newBuilder p node ty m = Inr (p1, Some b) \<longrightarrow>
      setType (Suc n) p node ty m =
        (case runBuffer (setType n) (p1\<lparr>index := (index p1)(termStr node \<mapsto> Some b)\<rparr>)
                (termStr node) (case buffer p (termStr node) of None \<Rightarrow> [] | Some buf \<Rightarrow> buf) of
           (p3, Some e) \<Rightarrow> (p3, Inl e)
         | (p3, None) \<Rightarrow> (p3\<lparr>buffer := (buffer p3)(termStr node := None)\<rparr>, Inr (termStr node)))
      \<and> (\<forall>p3 e. runBuffer (setType n) (p1\<lparr>index := (index p1)(termStr node \<mapsto> Some b)\<rparr>)
                (termStr node) (case buffer p (termStr node) of None \<Rightarrow> [] | Some buf \<Rightarrow> buf)
                = (p3, Some e) \<longrightarrow>
             index p3 (termStr node) \<noteq> None \<and> buffer p3 (termStr node) = buffer p (termStr node)))
   \<and> runBuffer st q K [] = (q, None)
   \<and> runBuffer st q K (s # buf') =
       (case apply_w st q K (Predicate (Statement s)) (Object (Statement s)) (BMeta s) of
          (q', Some e) \<Rightarrow> (q', Some e)
        | (q', None) \<Rightarrow> runBuffer st q' K buf')
   \<and> (Predicate stm \<noteq> uri_nstype \<and> index q2 (termStr (Subject stm)) = None \<longrightarrow>
        processTruple n2 q2 stm m2 =
          (q2\<lparr>buffer := (buffer q2)(termStr (Subject stm) \<mapsto>
                (case buffer q2 (termStr (Subject stm)) of None \<Rightarrow> [] | Some bf \<Rightarrow> bf)
                  @ [\<lparr>Statement = stm, BMeta = m2\<rparr>])\<rparr>, None))
   \<and> (setType n' p0 node' ty' m' = (p0', Inr v) \<longrightarrow>
        overlap p0' \<subseteq> overlap p0 \<and> (overlap p0 = {} \<longrightarrow> overlap p0' = {}))"
proof (intro conjI impI allI)
  assume a: "index p (termStr node) = None \<and> newBuilder p node ty m = Inr (p1, Some b)"
  then have ip1: "index p1 = index p" "buffer p1 = buffer p"
    using newBuilder_parser by blast+
  show "setType (Suc n) p node ty m =
        (case runBuffer (setType n) (p1\<lparr>index := (index p1)(termStr node \<mapsto> Some b)\<rparr>)
                (termStr node) (case buffer p (termStr node) of None \<Rightarrow> [] | Some buf \<Rightarrow> buf) of
           (p3, Some e) \<Rightarrow> (p3, Inl e)
         | (p3, None) \<Rightarrow> (p3\<lparr>buffer := (buffer p3)(termStr node := None)\<rparr>, Inr (termStr node)))"
    using a ip1 by (simp add: setType_w_def Let_def split: prod.splits option.splits)
  fix p3 e
  assume rb: "runBuffer (setType n) (p1\<lparr>index := (index p1)(termStr node \<mapsto> Some b)\<rparr>)
                (termStr node) (case buffer p (termStr node) of None \<Rightarrow> [] | Some buf \<Rightarrow> buf)
                = (p3, Some e)"
  have k: "buffer p3 (termStr node) = buffer (p1\<lparr>index := (index p1)(termStr node \<mapsto> Some b)\<rparr>) (termStr node)
      \<and> index p3 (termStr node) \<noteq> None"
    using runBuffer_keeps_own_buffer[OF frameSt_setType rb] by simp
  show "index p3 (termStr node) \<noteq> None" using k by simp
  show "buffer p3 (termStr node) = buffer p (termStr node)" using k ip1 by simp
next
  assume "Predicate stm \<noteq> uri_nstype \<and> index q2 (termStr (Subject stm)) = None"
  then show "processTruple n2 q2 stm m2 =
          (q2\<lparr>buffer := (buffer q2)(termStr (Subject stm) \<mapsto>
                (case buffer q2 (termStr (Subject stm)) of None \<Rightarrow> [] | Some bf \<Rightarrow> bf)
                  @ [\<lparr>Statement = stm, BMeta = m2\<rparr>])\<rparr>, None)"
    by (simp add: processTruple_def Let_def)
next
  assume s: "setType n' p0 node' ty' m' = (p0', Inr v)"
  show o: "overlap p0' \<subseteq> overlap p0" using cleanStD[OF cleanSt_setType s] .
  assume "overlap p0 = {}"
  then show "overlap p0' = {}" using o by blast
qed simp_all

theorem setType_failed_replay_counterexample:
  "snd (setType 1 (fst (processTruple 1 NewParser
           (tr (Uri ''P'') (Uri (baseUri @ ''bogus'')) (Literal ''x'')) (Some 1)))
         (Uri ''P'') typePackage (Some 2))
     = Inl (ParseError (MsgPropertyNotSupported ''bogus'' typePackage) (Some 1))
   \<and> index (fst (setType 1 (fst (processTruple 1 NewParser
           (tr (Uri ''P'') (Uri (baseUri @ ''bogus'')) (Literal ''x'')) (Some 1)))
         (Uri ''P'') typePackage (Some 2))) ''P'' \<noteq> None
   \<and> buffer (fst (setType 1 (fst (processTruple 1 NewParser
           (tr (Uri ''P'') (Uri (baseUri @ ''bogus'')) (Literal ''x'')) (Some 1)))
         (Uri ''P'') typePackage (Some 2))) ''P'' \<noteq> None"
  by code_simp

theorem setType_registers_replays_deletes_witness:
  "let bogus = tr (Uri ''P'') (Uri (baseUri @ ''bogus'')) (Literal ''x'');
       name = tr (Uri ''P'') (Uri (baseUri @ ''name'')) (Literal ''libfoo'');
       p = fst (processTruple 1 NewParser bogus (Some 1));
       b = packageMap (newEntity GPackage (Some 2));
       p2 = p\<lparr>index := (index p)(''P'' \<mapsto> Some b)\<rparr>;
       p3 = fst (runBuffer (setType 0) p2 ''P'' [\<lparr>Statement = bogus, BMeta = Some 1\<rparr>]);
       e = ParseError (MsgPropertyNotSupported ''bogus'' typePackage) (Some 1);
       p0 = fst (processTruple 1 NewParser name (Some 1));
       p0' = fst (setType 1 p0 (Uri ''P'') typePackage (Some 2))
   in index p ''P'' = None
    \<and> newBuilder p (Uri ''P'') typePackage (Some 2) = Inr (p, Some b)
    \<and> buffer p ''P'' = Some [\<lparr>Statement = bogus, BMeta = Some 1\<rparr>]
    \<and> runBuffer (setType 0) p2 ''P'' [\<lparr>Statement = bogus, BMeta = Some 1\<rparr>] = (p3, Some e)
    \<and> setType 1 p (Uri ''P'') typePackage (Some 2) = (p3, Inl e)
    \<and> index p3 ''P'' \<noteq> None
    \<and> buffer p3 ''P'' = Some [\<lparr>Statement = bogus, BMeta = Some 1\<rparr>]
    \<and> Predicate bogus \<noteq> uri_nstype
    \<and> index NewParser (termStr (Subject bogus)) = None
    \<and> processTruple 1 NewParser bogus (Some 1)
        = (NewParser\<lparr>buffer := (buffer NewParser)(''P'' \<mapsto>
              [\<lparr>Statement = bogus, BMeta = Some 1\<rparr>])\<rparr>, None)
    \<and> setType 1 p0 (Uri ''P'') typePackage (Some 2) = (p0', Inr ''P'')
    \<and> overlap p0 = {}
    \<and> overlap p0' = {}"
proof -
  let ?bogus = "tr (Uri ''P'') (Uri (baseUri @ ''bogus'')) (Literal ''x'')"
  let ?name = "tr (Uri ''P'') (Uri (baseUri @ ''name'')) (Literal ''libfoo'')"
  let ?p = "fst (processTruple 1 NewParser ?bogus (Some 1))"
  let ?b = "packageMap (newEntity GPackage (Some 2))"
  let ?p2 = "?p\<lparr>index := (index ?p)(''P'' \<mapsto> Some ?b)\<rparr>"
  let ?buf = "[\<lparr>Statement = ?bogus, BMeta = Some 1\<rparr>]"
  let ?p3 = "fst (runBuffer (setType 0) ?p2 ''P'' ?buf)"
  let ?e = "ParseError (MsgPropertyNotSupported ''bogus'' typePackage) (Some 1)"
  let ?pz = "fst (processTruple 1 NewParser ?name (Some 1))"
  let ?pz' = "fst (setType 1 ?pz (Uri ''P'') typePackage (Some 2))"
  have nt: "Predicate ?bogus \<noteq> uri_nstype" "Predicate ?name \<noteq> uri_nstype" by code_simp+
  have sb: "termStr (Subject ?bogus) = ''P''" "termStr (Subject ?name) = ''P''"
    by (simp_all add: tr_def)
  have i0: "index NewParser (termStr (Subject ?bogus)) = None" by (simp add: NewParser_def)
  have pt: "processTruple 1 NewParser ?bogus (Some 1)
        = (NewParser\<lparr>buffer := (buffer NewParser)(''P'' \<mapsto> ?buf)\<rparr>, None)"
    using setType_registers_replays_deletes[where stm="?bogus" and ?q2.0=NewParser
        and ?n2.0=1 and ?m2.0="Some 1"] nt i0 sb
    by (simp add: NewParser_def)
  have pe: "?p = NewParser\<lparr>buffer := (buffer NewParser)(''P'' \<mapsto> ?buf)\<rparr>"
    using pt by simp
  have ip: "index ?p ''P'' = None" unfolding pe by (simp add: NewParser_def)
  have bp: "buffer ?p ''P'' = Some ?buf" unfolding pe by simp
  have nb: "newBuilder ?p (Uri ''P'') typePackage (Some 2) = Inr (?p, Some ?b)"
    by (simp add: newBuilder_def type_values)
  have "snd (runBuffer (setType 0) ?p2 ''P'' ?buf) = Some ?e" by code_simp
  then obtain q3 where rb: "runBuffer (setType 0) ?p2 ''P'' ?buf = (q3, Some ?e)"
    by (metis prod.collapse)
  have q3: "?p3 = q3" using rb by simp
  have p0e: "?pz = NewParser\<lparr>buffer := (buffer NewParser)(''P'' \<mapsto>
      [\<lparr>Statement = ?name, BMeta = Some 1\<rparr>])\<rparr>"
    using setType_registers_replays_deletes[where stm="?name" and ?q2.0=NewParser
        and ?n2.0=1 and ?m2.0="Some 1"] nt sb
    by (simp add: NewParser_def)
  have ov: "overlap ?pz = {}" unfolding p0e by (simp add: overlap_def NewParser_def)
  have "snd (setType 1 ?pz (Uri ''P'') typePackage (Some 2)) = Inr ''P''" by code_simp
  then obtain qz where st: "setType 1 ?pz (Uri ''P'') typePackage (Some 2) = (qz, Inr ''P'')"
    by (metis prod.collapse)
  have qz: "?pz' = qz" using st by simp
  have main: "setType 1 ?p (Uri ''P'') typePackage (Some 2) = (q3, Inl ?e)
      \<and> index q3 ''P'' \<noteq> None \<and> buffer q3 ''P'' = Some ?buf"
    using ip nb bp rb
      setType_registers_replays_deletes[where p="?p" and node="Uri ''P''" and ty=typePackage
        and m="Some 2" and ?p1.0="?p" and b="?b" and n=0, THEN conjunct1]
    by (simp del: runBuffer.simps)
  have ov': "overlap qz = {}"
    using st ov
      setType_registers_replays_deletes[where ?n'=1 and ?p0.0="?pz" and ?node'="Uri ''P''"
        and ?ty'=typePackage and ?m'="Some 2" and ?p0'=qz and v="''P''"]
    by simp
  show ?thesis
    unfolding Let_def q3 qz
    using ip nb bp rb main nt(1) i0 pt st ov ov'
    by (simp del: runBuffer.simps)
qed

end
